theory Spec2Isabelle
  imports
    Complex_Main
    "HOL-Library.Char_ord"
    "HOL-Library.List_Lexorder"
    "HOL-Library.Product_Lexorder"
    "HOL-Library.Multiset"
begin

section \<open>Data model (models/data\_models.py)\<close>

text \<open>
  Python strings are \<open>string\<close>; tuples of strings are compared by Python
  lexicographically, which is the order that \<open>Char_ord\<close>, \<open>List_Lexorder\<close> and
  \<open>Product_Lexorder\<close> put on \<open>string \<times> string\<close>. Python integers are \<open>int\<close>;
  loop counts (\<open>range(n)\<close>) and lengths are \<open>nat\<close>.
\<close>

datatype Day = Monday | Tuesday | Wednesday | Thursday | Friday

datatype CourseType = THEORY_4HR | THEORY_3HR_LAB_2HR

datatype SessionType = THEORY | LAB

record TimeSlot =
  day :: Day
  hour :: int

record Course =
  code :: string
  course_type :: CourseType
  total_batches :: int
  batches :: "string list"
  batch_sizes :: "int list"
  teacher_assignments :: "(string \<times> string) list"

definition theory_hours :: "Course \<Rightarrow> nat" where
  "theory_hours c = (if course_type c = THEORY_4HR then 4 else 3)"

definition lab_hours :: "Course \<Rightarrow> nat" where
  "lab_hours c = (if course_type c = THEORY_4HR then 0 else 2)"

definition total_hours :: "Course \<Rightarrow> nat" where
  "total_hours c = theory_hours c + lab_hours c"

record ScheduleEntry =
  course_code :: string
  batch_id :: string
  teacher_name :: string
  room_id :: string
  time_slot :: TimeSlot
  session_type :: SessionType
  student_count :: int

text \<open>A course-batch \<open>(course, batch)\<close>, the key of every conflict table.\<close>

type_synonym cb = "string \<times> string"

text \<open>The key \<open>(day, hour)\<close> of the occupancy dictionaries.\<close>

type_synonym slot_key = "Day \<times> int"

definition entry_cb :: "ScheduleEntry \<Rightarrow> cb" where
  "entry_cb e = (course_code e, batch_id e)"

definition entry_slot :: "ScheduleEntry \<Rightarrow> slot_key" where
  "entry_slot e = (day (time_slot e), hour (time_slot e))"

text \<open>The exceptions the modelled code can raise.\<close>

datatype error = IndexError | ValidationError | KeyError

text \<open>\<open>teacher_assignments.get(batch_id, "TBA")\<close>.\<close>

definition teacher_for :: "Course \<Rightarrow> string \<Rightarrow> string" where
  "teacher_for c b = (case map_of (teacher_assignments c) b of None \<Rightarrow> ''TBA'' | Some t \<Rightarrow> t)"

text \<open>\<open>batch_sizes[batch_idx] if batch_idx < len(batch_sizes) else 60\<close>.\<close>

definition students_for :: "Course \<Rightarrow> nat \<Rightarrow> int" where
  "students_for c batch_idx =
     (if batch_idx < length (batch_sizes c) then batch_sizes c ! batch_idx else 60)"

section \<open>Student overlap index (ConflictAwarePlanner.\_load\_student\_conflicts)\<close>

text \<open>
  The index is built from the enrollment records, one list of course-batches per
  student (the rows of the allocation file after \<open>zip\<close> and \<open>strip\<close>).
  \<open>student_conflicts\<close> is a \<open>defaultdict(set)\<close> and \<open>pair_student_count\<close> a
  \<open>defaultdict(int)\<close>, read with \<open>.get(key, 0)\<close>: total functions with the
  defaults \<open>{}\<close> and \<open>0\<close>.
\<close>

record conflict_index =
  student_conflicts :: "cb \<Rightarrow> cb set"
  pair_student_count :: "cb \<times> cb \<Rightarrow> nat"

definition empty_index :: conflict_index where
  "empty_index = \<lparr>student_conflicts = (\<lambda>_. {}), pair_student_count = (\<lambda>_. 0)\<rparr>"

text \<open>\<open>key = (cb1, cb2) if cb1 < cb2 else (cb2, cb1)\<close>.\<close>

definition pair_key :: "cb \<Rightarrow> cb \<Rightarrow> cb \<times> cb" where
  "pair_key cb1 cb2 = (if cb1 < cb2 then (cb1, cb2) else (cb2, cb1))"

text \<open>The body of the inner loop, for one pair of positions \<open>i < j\<close> of a record.\<close>

definition add_pair :: "cb \<Rightarrow> cb \<Rightarrow> conflict_index \<Rightarrow> conflict_index" where
  "add_pair cb1 cb2 idx =
     (let sc1 = (student_conflicts idx)(cb1 := insert cb2 (student_conflicts idx cb1));
          sc2 = sc1(cb2 := insert cb1 (sc1 cb2));
          key = pair_key cb1 cb2
      in \<lparr>student_conflicts = sc2,
          pair_student_count = (pair_student_count idx)(key := pair_student_count idx key + 1)\<rparr>)"

text \<open>\<open>for i, cb1 in enumerate(cbs): for cb2 in cbs[i+1:]: ...\<close>\<close>

fun load_row :: "cb list \<Rightarrow> conflict_index \<Rightarrow> conflict_index" where
  "load_row [] idx = idx"
| "load_row (cb1 # rest) idx = load_row rest (fold (add_pair cb1) rest idx)"

definition load_student_conflicts :: "cb list list \<Rightarrow> conflict_index" where
  "load_student_conflicts rows = fold load_row rows empty_index"

text \<open>
  The weighted degree stored in \<open>conflict_count\<close>: the sum of the pair counts over the
  adjacency set. The index does not change after loading, so the stored value is this
  function of it; a course-batch without an adjacency set gets \<open>.get(cb, 0) = 0\<close>.
\<close>

definition conflict_count :: "conflict_index \<Rightarrow> cb \<Rightarrow> nat" where
  "conflict_count idx c =
     (\<Sum>conflict_cb \<in> student_conflicts idx c. pair_student_count idx (pair_key c conflict_cb))"

text \<open>
  The weight of one occupant in \<open>count_slot_conflicts\<close>: the pair count when the
  occupant is in the adjacency set of the course-batch, nothing otherwise.
\<close>

definition conflict_weight :: "conflict_index \<Rightarrow> cb \<Rightarrow> cb \<Rightarrow> nat" where
  "conflict_weight idx c scheduled_cb =
     (if scheduled_cb \<in> student_conflicts idx c
      then pair_student_count idx (pair_key c scheduled_cb) else 0)"

section \<open>Conflict-aware planner (agents/conflict\_aware\_planner.py)\<close>

text \<open>
  One element of \<open>sessions_to_schedule\<close>: a session group of a course-batch. The
  dictionary keys \<open>course\<close>, \<open>batch\<close>, \<open>type\<close>, \<open>hours\<close>, \<open>teacher\<close>,
  \<open>students\<close> and \<open>conflicts\<close> are the fields.
\<close>

record session =
  sess_course :: string
  sess_batch :: string
  sess_type :: SessionType
  sess_hours :: nat
  sess_teacher :: string
  sess_students :: int
  sess_conflicts :: nat

text \<open>
  The tracking structures of \<open>generate_proposal\<close>. \<open>teacher_schedule\<close> and
  \<open>room_schedule\<close> are only tested for membership. \<open>slot_courses\<close> holds Python
  sets that the cost function iterates over: each set is kept as the list of its members
  in insertion order, and the order in which Python enumerates it is a parameter
  \<open>iter\<close> of the model (a rearrangement of that list).
\<close>

record planner_state =
  entries :: "ScheduleEntry list"
  teacher_schedule :: "slot_key \<Rightarrow> string set"
  room_schedule :: "slot_key \<times> string \<Rightarrow> bool"
  slot_courses :: "slot_key \<Rightarrow> cb list"
  total_conflicts :: nat
  scheduled_count :: nat

definition initial_state :: planner_state where
  "initial_state = \<lparr>entries = [], teacher_schedule = (\<lambda>_. {}), room_schedule = (\<lambda>_. False),
     slot_courses = (\<lambda>_. []), total_conflicts = 0, scheduled_count = 0\<rparr>"

text \<open>\<open>s.add(x)\<close> on a set kept as a list.\<close>

definition set_add :: "'a \<Rightarrow> 'a list \<Rightarrow> 'a list" where
  "set_add x xs = (if x \<in> set xs then xs else xs @ [x])"

text \<open>\<open>[f"R{i}" for i in range(1, 29)]\<close> and \<open>[f"LAB{i}" for i in range(1, 8)]\<close>.\<close>

definition regular_rooms :: "string list" where
  "regular_rooms = [''R1'', ''R2'', ''R3'', ''R4'', ''R5'', ''R6'', ''R7'', ''R8'', ''R9'',
     ''R10'', ''R11'', ''R12'', ''R13'', ''R14'', ''R15'', ''R16'', ''R17'', ''R18'', ''R19'',
     ''R20'', ''R21'', ''R22'', ''R23'', ''R24'', ''R25'', ''R26'', ''R27'', ''R28'']"

definition lab_rooms :: "string list" where
  "lab_rooms = [''LAB1'', ''LAB2'', ''LAB3'', ''LAB4'', ''LAB5'', ''LAB6'', ''LAB7'']"

definition days :: "Day list" where
  "days = [Monday, Tuesday, Wednesday, Thursday, Friday]"

definition hours :: "int list" where
  "hours = [10..17]"

text \<open>The nested loops \<open>for day in days: for hour in hours\<close> visit these keys in order.\<close>

definition all_slots :: "slot_key list" where
  "all_slots = concat (map (\<lambda>d. map (\<lambda>h. (d, h)) hours) days)"

text \<open>The session groups of one batch of a course: theory first, then lab.\<close>

definition batch_sessions :: "conflict_index \<Rightarrow> string \<Rightarrow> Course \<Rightarrow> nat \<times> string \<Rightarrow> session list" where
  "batch_sessions idx k c = (\<lambda>(batch_idx, b).
     (let conflict_score = conflict_count idx (k, b) in
      (if theory_hours c > 0
       then [\<lparr>sess_course = k, sess_batch = b, sess_type = THEORY, sess_hours = theory_hours c,
               sess_teacher = teacher_for c b, sess_students = students_for c batch_idx,
               sess_conflicts = conflict_score\<rparr>]
       else []) @
      (if lab_hours c > 0
       then [\<lparr>sess_course = k, sess_batch = b, sess_type = LAB, sess_hours = lab_hours c,
               sess_teacher = teacher_for c b, sess_students = students_for c batch_idx,
               sess_conflicts = conflict_score\<rparr>]
       else [])))"

text \<open>
  \<open>courses\<close> is a dictionary from course code to course: the list of its items in
  insertion order.
\<close>

definition sessions_to_schedule :: "conflict_index \<Rightarrow> (string \<times> Course) list \<Rightarrow> session list" where
  "sessions_to_schedule idx courses =
     concat (map (\<lambda>(k, c). concat (map (batch_sessions idx k c) (enumerate 0 (batches c)))) courses)"

text \<open>\<open>count_slot_conflicts\<close>: how many students would be double-booked.\<close>

definition count_slot_conflicts ::
  "(cb list \<Rightarrow> cb list) \<Rightarrow> conflict_index \<Rightarrow> planner_state \<Rightarrow> slot_key \<Rightarrow> cb \<Rightarrow> nat" where
  "count_slot_conflicts iter idx st k c =
     fold (\<lambda>scheduled_cb n. n + conflict_weight idx c scheduled_cb) (iter (slot_courses st k)) 0"

text \<open>The inner loop over the rooms: it stops at the first free room.\<close>

fun first_free_room :: "(slot_key \<times> string \<Rightarrow> bool) \<Rightarrow> slot_key \<Rightarrow> string list \<Rightarrow> string option" where
  "first_free_room rs k [] = None"
| "first_free_room rs k (room # rooms) =
     (if \<not> rs (k, room) then Some room else first_free_room rs k rooms)"

text \<open>
  \<open>find_best_slot\<close>. The three variables \<open>best_slot\<close>, \<open>best_room\<close> and
  \<open>best_conflict_count\<close> are one optional triple: \<open>None\<close> stands for
  \<open>(None, None, inf)\<close>, below which every count lies.
\<close>

fun scan_slots ::
  "(cb list \<Rightarrow> cb list) \<Rightarrow> conflict_index \<Rightarrow> planner_state \<Rightarrow> cb \<Rightarrow> string \<Rightarrow> string list \<Rightarrow>
   slot_key list \<Rightarrow> (slot_key \<times> string \<times> nat) option \<Rightarrow> (slot_key \<times> string \<times> nat) option" where
  "scan_slots iter idx st c tchr rooms [] best = best"
| "scan_slots iter idx st c tchr rooms (k # ks) best =
     (if tchr \<in> teacher_schedule st k then scan_slots iter idx st c tchr rooms ks best
      else
        (let conflicts = count_slot_conflicts iter idx st k c in
         (case first_free_room (room_schedule st) k rooms of
            None \<Rightarrow> scan_slots iter idx st c tchr rooms ks best
          | Some room \<Rightarrow>
              if (case best of None \<Rightarrow> True
                  | Some (best_slot, best_room, best_conflict_count) \<Rightarrow>
                      conflicts < best_conflict_count)
              then (if conflicts = 0 then Some (k, room, conflicts)
                    else scan_slots iter idx st c tchr rooms ks (Some (k, room, conflicts)))
              else scan_slots iter idx st c tchr rooms ks best)))"

definition find_best_slot ::
  "(cb list \<Rightarrow> cb list) \<Rightarrow> conflict_index \<Rightarrow> planner_state \<Rightarrow> cb \<Rightarrow> string \<Rightarrow> string list \<Rightarrow>
   (slot_key \<times> string \<times> nat) option" where
  "find_best_slot iter idx st c tchr rooms = scan_slots iter idx st c tchr rooms all_slots None"

text \<open>Creating the entry and updating the tracking structures.\<close>

definition commit :: "session \<Rightarrow> slot_key \<Rightarrow> string \<Rightarrow> nat \<Rightarrow> planner_state \<Rightarrow> planner_state" where
  "commit s k room conflicts st =
     st\<lparr>entries := entries st @
          [\<lparr>course_code = sess_course s, batch_id = sess_batch s, teacher_name = sess_teacher s,
            room_id = room, time_slot = \<lparr>day = fst k, hour = snd k\<rparr>,
            session_type = sess_type s, student_count = sess_students s\<rparr>],
        teacher_schedule := (teacher_schedule st)(k := insert (sess_teacher s) (teacher_schedule st k)),
        room_schedule := (room_schedule st)((k, room) := True),
        slot_courses := (slot_courses st)(k := set_add (sess_course s, sess_batch s) (slot_courses st k)),
        total_conflicts := total_conflicts st + conflicts,
        scheduled_count := scheduled_count st + 1\<rparr>"

text \<open>\<open>for _ in range(hours_needed)\<close>, left at the first hour without a slot.\<close>

fun schedule_hours ::
  "(cb list \<Rightarrow> cb list) \<Rightarrow> conflict_index \<Rightarrow> session \<Rightarrow> string list \<Rightarrow> nat \<Rightarrow> planner_state \<Rightarrow> planner_state" where
  "schedule_hours iter idx s rooms 0 st = st"
| "schedule_hours iter idx s rooms (Suc n) st =
     (case find_best_slot iter idx st (sess_course s, sess_batch s) (sess_teacher s) rooms of
        None \<Rightarrow> st
      | Some (k, room, conflicts) \<Rightarrow> schedule_hours iter idx s rooms n (commit s k room conflicts st))"

definition schedule_session ::
  "(cb list \<Rightarrow> cb list) \<Rightarrow> conflict_index \<Rightarrow> session \<Rightarrow> planner_state \<Rightarrow> planner_state" where
  "schedule_session iter idx s st =
     schedule_hours iter idx s (if sess_type s = LAB then lab_rooms else regular_rooms)
       (sess_hours s) st"

text \<open>
  \<open>generate_proposal\<close>. The arguments \<open>teachers\<close> and \<open>config\<close> are not read by
  the code. The sort is stable, as Python's; the progress message reads
  \<open>sessions_to_schedule[0]\<close> and raises \<open>IndexError\<close> when there is no session
  group. The result is the final state: its \<open>entries\<close> are the proposal's.
\<close>

definition generate_proposal ::
  "(cb list \<Rightarrow> cb list) \<Rightarrow> conflict_index \<Rightarrow> (string \<times> Course) list \<Rightarrow> error + planner_state" where
  "generate_proposal iter idx courses =
     (let sessions = sort_key (\<lambda>x. - int (sess_conflicts x)) (sessions_to_schedule idx courses)
      in if sessions = [] then Inl IndexError
         else Inr (fold (schedule_session iter idx) sessions initial_state))"

section \<open>Properties of the overlap index\<close>

lemma pair_key_commute: "pair_key a b = pair_key b a"
  by (auto simp: pair_key_def)

definition adjacency_symmetric :: "conflict_index \<Rightarrow> bool" where
  "adjacency_symmetric idx \<longleftrightarrow>
     (\<forall>a b. b \<in> student_conflicts idx a \<longleftrightarrow> a \<in> student_conflicts idx b)"

lemma add_pair_symmetric:
  "adjacency_symmetric idx \<Longrightarrow> adjacency_symmetric (add_pair x y idx)"
  unfolding adjacency_symmetric_def add_pair_def Let_def
  by (simp add: fun_upd_def) blast

lemma fold_add_pair_symmetric:
  "adjacency_symmetric idx \<Longrightarrow> adjacency_symmetric (fold (add_pair x) ys idx)"
  by (induction ys arbitrary: idx) (simp_all add: add_pair_symmetric)

lemma load_row_symmetric:
  "adjacency_symmetric idx \<Longrightarrow> adjacency_symmetric (load_row row idx)"
  by (induction row arbitrary: idx) (simp_all add: fold_add_pair_symmetric)

lemma fold_load_row_symmetric:
  "adjacency_symmetric idx \<Longrightarrow> adjacency_symmetric (fold load_row rows idx)"
  by (induction rows arbitrary: idx) (simp_all add: load_row_symmetric)

lemma load_symmetric: "adjacency_symmetric (load_student_conflicts rows)"
  unfolding load_student_conflicts_def
  by (rule fold_load_row_symmetric) (simp add: adjacency_symmetric_def empty_index_def)

text \<open>No course-batch is in its own adjacency set.\<close>

definition irreflexive_index :: "conflict_index \<Rightarrow> bool" where
  "irreflexive_index idx \<longleftrightarrow> (\<forall>a. a \<notin> student_conflicts idx a)"

lemma add_pair_irreflexive:
  "irreflexive_index idx \<Longrightarrow> x \<noteq> y \<Longrightarrow> irreflexive_index (add_pair x y idx)"
  unfolding irreflexive_index_def add_pair_def Let_def
  by (auto simp: fun_upd_def)

lemma fold_add_pair_irreflexive:
  "irreflexive_index idx \<Longrightarrow> x \<notin> set ys \<Longrightarrow> irreflexive_index (fold (add_pair x) ys idx)"
  by (induction ys arbitrary: idx) (auto simp: add_pair_irreflexive)

lemma load_row_irreflexive:
  "irreflexive_index idx \<Longrightarrow> distinct row \<Longrightarrow> irreflexive_index (load_row row idx)"
  by (induction row arbitrary: idx) (simp_all add: fold_add_pair_irreflexive)

lemma fold_load_row_irreflexive:
  "irreflexive_index idx \<Longrightarrow> \<forall>row \<in> set rows. distinct row \<Longrightarrow>
   irreflexive_index (fold load_row rows idx)"
  by (induction rows arbitrary: idx) (simp_all add: load_row_irreflexive)

lemma load_irreflexive:
  "\<forall>row \<in> set rows. distinct row \<Longrightarrow> irreflexive_index (load_student_conflicts rows)"
  unfolding load_student_conflicts_def
  by (rule fold_load_row_irreflexive) (simp_all add: irreflexive_index_def empty_index_def)

text \<open>
  Claim C7 (as amended). For every sequence of enrollment records the conflict weight
  read from the built index is symmetric: \<open>conflict_weight(a, b) = conflict_weight(b, a)\<close>.
  The weight of a course-batch with itself is \<open>0\<close> whenever no record lists the same
  course-batch twice.
\<close>

theorem conflict_weight_symmetric_irreflexive:
  "conflict_weight (load_student_conflicts rows) a b
     = conflict_weight (load_student_conflicts rows) b a
   \<and> ((\<forall>row \<in> set rows. distinct row) \<longrightarrow>
        conflict_weight (load_student_conflicts rows) a a = 0)"
proof
  have "adjacency_symmetric (load_student_conflicts rows)"
    by (rule load_symmetric)
  then have "b \<in> student_conflicts (load_student_conflicts rows) a
      \<longleftrightarrow> a \<in> student_conflicts (load_student_conflicts rows) b"
    unfolding adjacency_symmetric_def by blast
  then show "conflict_weight (load_student_conflicts rows) a b
      = conflict_weight (load_student_conflicts rows) b a"
    by (simp add: conflict_weight_def pair_key_commute [of a b])
next
  show "(\<forall>row \<in> set rows. distinct row) \<longrightarrow>
      conflict_weight (load_student_conflicts rows) a a = 0"
  proof
    assume "\<forall>row \<in> set rows. distinct row"
    then have "irreflexive_index (load_student_conflicts rows)"
      by (rule load_irreflexive)
    then have "a \<notin> student_conflicts (load_student_conflicts rows) a"
      unfolding irreflexive_index_def by blast
    then show "conflict_weight (load_student_conflicts rows) a a = 0"
      by (simp add: conflict_weight_def)
  qed
qed

theorem conflict_weight_symmetric_irreflexive_witness:
  "distinct [(''CO401'', ''B1''), (''CO403'', ''B2'')]
   \<and> conflict_weight (load_student_conflicts [[(''CO401'', ''B1''), (''CO403'', ''B2'')]])
        (''CO401'', ''B1'') (''CO403'', ''B2'') = 1
   \<and> conflict_weight (load_student_conflicts [[(''CO401'', ''B1''), (''CO403'', ''B2'')]])
        (''CO403'', ''B2'') (''CO401'', ''B1'') = 1
   \<and> conflict_weight (load_student_conflicts [[(''CO401'', ''B1''), (''CO403'', ''B2'')]])
        (''CO401'', ''B1'') (''CO401'', ''B1'') = 0"
  using conflict_weight_symmetric_irreflexive
    [of "[[(''CO401'', ''B1''), (''CO403'', ''B2'')]]" "(''CO401'', ''B1'')" "(''CO403'', ''B2'')"]
  by (simp add: load_student_conflicts_def empty_index_def add_pair_def pair_key_def
      conflict_weight_def)

text \<open>
  A record that lists one course-batch twice makes the loop record a self-pair: the
  weight of the course-batch with itself is then \<open>1\<close>, not \<open>0\<close>.
\<close>

theorem conflict_weight_self_counterexample:
  "conflict_weight (load_student_conflicts [[(''CO401'', ''B1''), (''CO401'', ''B1'')]])
     (''CO401'', ''B1'') (''CO401'', ''B1'') \<noteq> 0"
  by (simp add: load_student_conflicts_def empty_index_def add_pair_def pair_key_def
      conflict_weight_def)

section \<open>Slot selection policy of find\_best\_slot\<close>

type_synonym candidate = "slot_key \<times> string \<times> nat"

definition cost :: "candidate \<Rightarrow> nat" where
  "cost x = snd (snd x)"

text \<open>
  The candidates of a call, in canonical order: every slot (day, then hour ascending) at
  which the teacher is free, with every free room of the pool in pool order, and the
  marginal conflict cost of the slot.
\<close>

definition slot_candidates ::
  "(cb list \<Rightarrow> cb list) \<Rightarrow> conflict_index \<Rightarrow> planner_state \<Rightarrow> cb \<Rightarrow> string \<Rightarrow> string list \<Rightarrow>
   slot_key \<Rightarrow> candidate list" where
  "slot_candidates iter idx st c tchr rooms k =
     (if tchr \<in> teacher_schedule st k then []
      else map (\<lambda>room. (k, room, count_slot_conflicts iter idx st k c))
             (filter (\<lambda>room. \<not> room_schedule st (k, room)) rooms))"

definition candidates_in ::
  "(cb list \<Rightarrow> cb list) \<Rightarrow> conflict_index \<Rightarrow> planner_state \<Rightarrow> cb \<Rightarrow> string \<Rightarrow> string list \<Rightarrow>
   slot_key list \<Rightarrow> candidate list" where
  "candidates_in iter idx st c tchr rooms ks =
     concat (map (slot_candidates iter idx st c tchr rooms) ks)"

definition candidates ::
  "(cb list \<Rightarrow> cb list) \<Rightarrow> conflict_index \<Rightarrow> planner_state \<Rightarrow> cb \<Rightarrow> string \<Rightarrow> string list \<Rightarrow>
   candidate list" where
  "candidates iter idx st c tchr rooms = candidates_in iter idx st c tchr rooms all_slots"

text \<open>The first candidate, in list order, of the least cost in the list.\<close>

definition first_of_min_cost :: "candidate list \<Rightarrow> candidate option" where
  "first_of_min_cost xs =
     (if xs = [] then None else find (\<lambda>x. cost x = Min (cost ` set xs)) xs)"

lemma first_free_room_filter:
  "first_free_room rs k rooms =
     (case filter (\<lambda>room. \<not> rs (k, room)) rooms of [] \<Rightarrow> None | r # _ \<Rightarrow> Some r)"
  by (induction rooms) auto

text \<open>The scan with a best candidate so far, as a selection over a candidate list.\<close>

lemma find_min_cons_worse:
  assumes "cost b \<le> cost x"
  shows "find (\<lambda>y. cost y = Min (cost ` set (b # x # xs))) (b # x # xs)
       = find (\<lambda>y. cost y = Min (cost ` set (b # xs))) (b # xs)"
proof -
  have m: "Min (cost ` set (b # x # xs)) = Min (cost ` set (b # xs))"
  proof -
    have "Min (cost ` set (b # x # xs)) = Min (insert (cost x) (cost ` set (b # xs)))"
      by (simp add: insert_commute)
    also have "\<dots> = min (cost x) (Min (cost ` set (b # xs)))"
      by (rule Min_insert) auto
    also have "\<dots> = Min (cost ` set (b # xs))"
    proof -
      have "Min (cost ` set (b # xs)) \<le> cost b" by (rule Min_le) auto
      then have "Min (cost ` set (b # xs)) \<le> cost x" using assms by (rule order_trans)
      then show ?thesis by (rule min.absorb2)
    qed
    finally show ?thesis .
  qed
  have le: "Min (cost ` set (b # xs)) \<le> cost b" by (rule Min_le) auto
  show ?thesis
  proof (cases "cost b = Min (cost ` set (b # xs))")
    case True
    then show ?thesis using m by simp
  next
    case False
    with le assms have "cost x \<noteq> Min (cost ` set (b # xs))" by linarith
    with False show ?thesis using m by simp
  qed
qed

lemma find_min_cons_better:
  assumes "cost x < cost b"
  shows "find (\<lambda>y. cost y = Min (cost ` set (b # x # xs))) (b # x # xs)
       = find (\<lambda>y. cost y = Min (cost ` set (x # xs))) (x # xs)"
proof -
  have le: "Min (cost ` set (x # xs)) \<le> cost x" by (rule Min_le) auto
  have m: "Min (cost ` set (b # x # xs)) = Min (cost ` set (x # xs))"
  proof -
    have "Min (cost ` set (b # x # xs)) = Min (insert (cost b) (cost ` set (x # xs)))"
      by simp
    also have "\<dots> = min (cost b) (Min (cost ` set (x # xs)))"
      by (rule Min_insert) auto
    also have "\<dots> = Min (cost ` set (x # xs))"
      using le assms by (simp add: min_def)
    finally show ?thesis .
  qed
  from le assms have "cost b \<noteq> Min (cost ` set (x # xs))" by linarith
  then show ?thesis using m by simp
qed


text \<open>The selection that the scan performs on the first free room of every slot.\<close>

fun pick :: "candidate option \<Rightarrow> candidate list \<Rightarrow> candidate option" where
  "pick best [] = best"
| "pick best (x # xs) =
     (if (case best of None \<Rightarrow> True | Some b \<Rightarrow> cost x < cost b)
      then (if cost x = 0 then Some x else pick (Some x) xs)
      else pick best xs)"

lemma pick_Some: "pick (Some b) xs = first_of_min_cost (b # xs)"
proof (induction xs arbitrary: b)
  case Nil
  show ?case by (simp add: first_of_min_cost_def)
next
  case (Cons x xs)
  show ?case
  proof (cases "cost x < cost b")
    case True
    note better = this
    show ?thesis
    proof (cases "cost x = 0")
      case True
      have "Min (cost ` set (x # xs)) = 0"
        using True by (intro Min_eqI) auto
      then have "first_of_min_cost (x # xs) = Some x"
        using True by (simp add: first_of_min_cost_def)
      then show ?thesis
        using better True find_min_cons_better [OF better, of xs]
        by (simp add: first_of_min_cost_def)
    next
      case False
      then show ?thesis
        using better Cons.IH [of x] find_min_cons_better [OF better, of xs]
        by (simp add: first_of_min_cost_def)
    qed
  next
    case False
    then have "cost b \<le> cost x" by simp
    from find_min_cons_worse [OF this, of xs] False Cons.IH [of b] show ?thesis
      by (simp add: first_of_min_cost_def)
  qed
qed

lemma pick_None: "pick None xs = first_of_min_cost xs"
proof (cases xs)
  case Nil
  then show ?thesis by (simp add: first_of_min_cost_def)
next
  case (Cons x ys)
  show ?thesis
  proof (cases "cost x = 0")
    case True
    have "Min (cost ` set (x # ys)) = 0"
      using True by (intro Min_eqI) auto
    then show ?thesis using True Cons by (simp add: first_of_min_cost_def)
  next
    case False
    then show ?thesis using Cons pick_Some [of x ys] by simp
  qed
qed


lemma pick_zero: "cost z = 0 \<Longrightarrow> pick (Some z) ys = Some z"
  by (induction ys) auto

lemma pick_append_zero:
  "pick best xs = Some z \<Longrightarrow> cost z = 0 \<Longrightarrow> pick best (xs @ ys) = Some z"
proof (induction xs arbitrary: best)
  case Nil
  then show ?case by (simp add: pick_zero)
next
  case (Cons x xs)
  then show ?case by (auto split: if_splits option.splits)
qed

lemma scan_slots_pick:
  "scan_slots iter idx st c tchr rooms ks best =
     pick best (concat (map (\<lambda>k. take 1 (slot_candidates iter idx st c tchr rooms k)) ks))"
proof (induction ks arbitrary: best)
  case Nil
  show ?case by simp
next
  case (Cons k ks)
  note IH = Cons.IH
  show ?case
  proof (cases "tchr \<in> teacher_schedule st k")
    case True
    then show ?thesis using IH by (simp add: slot_candidates_def)
  next
    case False
    note free = this
    show ?thesis
    proof (cases "filter (\<lambda>room. \<not> room_schedule st (k, room)) rooms")
      case Nil
      then have "first_free_room (room_schedule st) k rooms = None"
        by (simp add: first_free_room_filter)
      then show ?thesis
        using free Nil IH by (simp add: slot_candidates_def)
    next
      case (Cons r rs)
      then have ffr: "first_free_room (room_schedule st) k rooms = Some r"
        by (simp add: first_free_room_filter)
      have hd: "take 1 (slot_candidates iter idx st c tchr rooms k)
          = [(k, r, count_slot_conflicts iter idx st k c)]"
        using free Cons by (simp add: slot_candidates_def)
      show ?thesis
        unfolding scan_slots.simps list.map concat.simps hd
        using free ffr IH
        by (cases best) (simp_all add: cost_def Let_def case_prod_beta)
    qed
  qed
qed

text \<open>Groups of candidates of one cost each: only the head of a group matters.\<close>

definition uniform_cost :: "candidate list \<Rightarrow> bool" where
  "uniform_cost g \<longleftrightarrow> (\<forall>x \<in> set g. \<forall>y \<in> set g. cost x = cost y)"

lemma find_append_None: "find P xs = None \<Longrightarrow> find P (xs @ ys) = find P ys"
  by (induction xs) (auto split: if_splits)

lemma uniform_cost_Cons: "uniform_cost (x # g) \<Longrightarrow> y \<in> set g \<Longrightarrow> cost y = cost x"
  unfolding uniform_cost_def by (meson list.set_intros)

lemma heads_cost_image:
  "\<forall>g \<in> set gs. uniform_cost g \<Longrightarrow>
   cost ` set (concat (map (take 1) gs)) = cost ` set (concat gs)"
proof (induction gs)
  case Nil
  show ?case by simp
next
  case (Cons g gs)
  have "cost ` set (take 1 g) = cost ` set g"
  proof (cases g)
    case Nil
    then show ?thesis by simp
  next
    case (Cons x g')
    from Cons.prems have "uniform_cost g" by simp
    then have "\<And>y. y \<in> set g' \<Longrightarrow> cost y = cost x"
      unfolding Cons by (rule uniform_cost_Cons)
    then have "insert (cost x) (cost ` set g') = {cost x}" by blast
    then show ?thesis unfolding Cons by simp
  qed
  moreover have "cost ` set (concat (map (take 1) gs)) = cost ` set (concat gs)"
    using Cons by simp
  ultimately show ?case by (simp add: image_Un)
qed

lemma heads_find:
  "\<forall>g \<in> set gs. uniform_cost g \<Longrightarrow>
   find (\<lambda>x. cost x = m) (concat (map (take 1) gs)) = find (\<lambda>x. cost x = m) (concat gs)"
proof (induction gs)
  case Nil
  show ?case by simp
next
  case (Cons g gs)
  then have IH: "find (\<lambda>x. cost x = m) (concat (map (take 1) gs))
      = find (\<lambda>x. cost x = m) (concat gs)"
    by simp
  from Cons.prems have u: "uniform_cost g" by simp
  show ?case
  proof (cases g)
    case Nil
    with IH show ?thesis by simp
  next
    case (Cons x g')
    show ?thesis
    proof (cases "cost x = m")
      case True
      then show ?thesis unfolding Cons by simp
    next
      case False
      from u have "\<And>y. y \<in> set g' \<Longrightarrow> cost y = cost x"
        unfolding Cons by (rule uniform_cost_Cons)
      with False have "find (\<lambda>x. cost x = m) g' = None"
        by (simp add: find_None_iff)
      with False IH show ?thesis
        unfolding Cons by (simp add: find_append_None)
    qed
  qed
qed

lemma heads_empty: "concat (map (take 1) gs) = [] \<longleftrightarrow> concat gs = []"
  by (induction gs) auto

lemma first_of_min_cost_heads:
  assumes "\<forall>g \<in> set gs. uniform_cost g"
  shows "first_of_min_cost (concat (map (take 1) gs)) = first_of_min_cost (concat gs)"
  unfolding first_of_min_cost_def
  using heads_cost_image [OF assms] heads_find [OF assms] heads_empty [of gs]
  by simp

lemma slot_candidates_uniform: "uniform_cost (slot_candidates iter idx st c tchr rooms k)"
  by (auto simp: uniform_cost_def slot_candidates_def cost_def)

lemma scan_slots_first_of_min_cost:
  "scan_slots iter idx st c tchr rooms ks None
     = first_of_min_cost (candidates_in iter idx st c tchr rooms ks)"
proof -
  have "\<forall>g \<in> set (map (slot_candidates iter idx st c tchr rooms) ks). uniform_cost g"
    by (simp add: slot_candidates_uniform)
  from first_of_min_cost_heads [OF this] show ?thesis
    by (simp add: scan_slots_pick pick_None candidates_in_def comp_def map_concat)
qed

lemma min_cost_zero:
  assumes "x \<in> set xs" "cost x = 0"
  shows "Min (cost ` set xs) = 0"
  using assms by (intro Min_eqI) force+


text \<open>
  Claim C5. The slot that \<open>find_best_slot\<close> returns: none when there is no
  candidate; the first candidate of cost zero in canonical order when there is one, and
  a scan that has found it returns it whatever slots follow; otherwise the first
  candidate, in canonical order, of the least cost over all candidates.
\<close>

theorem find_best_slot_policy:
  "find_best_slot iter idx st c tchr rooms =
     (if candidates iter idx st c tchr rooms = [] then None
      else if \<exists>x \<in> set (candidates iter idx st c tchr rooms). cost x = 0
      then find (\<lambda>x. cost x = 0) (candidates iter idx st c tchr rooms)
      else find (\<lambda>x. cost x = Min (cost ` set (candidates iter idx st c tchr rooms)))
             (candidates iter idx st c tchr rooms))
   \<and> (scan_slots iter idx st c tchr rooms pre None = Some (k, room, 0) \<longrightarrow>
        scan_slots iter idx st c tchr rooms (pre @ post) None = Some (k, room, 0))"
proof
  have "find_best_slot iter idx st c tchr rooms
      = first_of_min_cost (candidates iter idx st c tchr rooms)"
    by (simp add: find_best_slot_def candidates_def scan_slots_first_of_min_cost)
  moreover have "Min (cost ` set (candidates iter idx st c tchr rooms)) = 0"
    if "\<exists>x \<in> set (candidates iter idx st c tchr rooms). cost x = 0"
    using that min_cost_zero by blast
  ultimately show "find_best_slot iter idx st c tchr rooms =
     (if candidates iter idx st c tchr rooms = [] then None
      else if \<exists>x \<in> set (candidates iter idx st c tchr rooms). cost x = 0
      then find (\<lambda>x. cost x = 0) (candidates iter idx st c tchr rooms)
      else find (\<lambda>x. cost x = Min (cost ` set (candidates iter idx st c tchr rooms)))
             (candidates iter idx st c tchr rooms))"
    by (simp add: first_of_min_cost_def)
next
  show "scan_slots iter idx st c tchr rooms pre None = Some (k, room, 0) \<longrightarrow>
        scan_slots iter idx st c tchr rooms (pre @ post) None = Some (k, room, 0)"
  proof
    assume "scan_slots iter idx st c tchr rooms pre None = Some (k, room, 0)"
    then have "pick None (concat (map (\<lambda>k. take 1 (slot_candidates iter idx st c tchr rooms k)) pre))
        = Some (k, room, 0)"
      by (simp only: scan_slots_pick)
    then have "pick None (concat (map (\<lambda>k. take 1 (slot_candidates iter idx st c tchr rooms k)) pre)
          @ concat (map (\<lambda>k. take 1 (slot_candidates iter idx st c tchr rooms k)) post))
        = Some (k, room, 0)"
      by (rule pick_append_zero) (simp add: cost_def)
    then show "scan_slots iter idx st c tchr rooms (pre @ post) None = Some (k, room, 0)"
      by (simp only: scan_slots_pick map_append concat_append)
  qed
qed

definition example_index :: conflict_index where
  "example_index = load_student_conflicts [[(''CO401'', ''B1''), (''CO403'', ''B1'')]]"

text \<open>A state in which CO403-B1 already sits in room R1 on Monday at 10.\<close>

definition example_state :: planner_state where
  "example_state =
     commit \<lparr>sess_course = ''CO403'', sess_batch = ''B1'', sess_type = THEORY, sess_hours = 4,
              sess_teacher = ''T2'', sess_students = 40, sess_conflicts = 1\<rparr>
       (Monday, 10) ''R1'' 0 initial_state"

theorem find_best_slot_policy_witness:
  "take 3 (candidates (\<lambda>xs. xs) example_index example_state (''CO401'', ''B1'') ''T1'' [''R1'', ''R2''])
     = [((Monday, 10), ''R2'', 1), ((Monday, 11), ''R1'', 0), ((Monday, 11), ''R2'', 0)]
   \<and> find_best_slot (\<lambda>xs. xs) example_index example_state (''CO401'', ''B1'') ''T1'' [''R1'', ''R2'']
     = find (\<lambda>x. cost x = 0)
         (candidates (\<lambda>xs. xs) example_index example_state (''CO401'', ''B1'') ''T1'' [''R1'', ''R2''])
   \<and> find_best_slot (\<lambda>xs. xs) example_index example_state (''CO401'', ''B1'') ''T1'' [''R1'', ''R2'']
     = Some ((Monday, 11), ''R1'', 0)
   \<and> scan_slots (\<lambda>xs. xs) example_index example_state (''CO401'', ''B1'') ''T1'' [''R1'', ''R2'']
       [(Monday, 10), (Monday, 11)] None = Some ((Monday, 11), ''R1'', 0)
   \<and> scan_slots (\<lambda>xs. xs) example_index example_state (''CO401'', ''B1'') ''T1'' [''R1'', ''R2'']
       ([(Monday, 10), (Monday, 11)] @ [(Monday, 12)]) None = Some ((Monday, 11), ''R1'', 0)"
proof -
  note policy = find_best_slot_policy [of "\<lambda>xs. xs" example_index example_state
      "(''CO401'', ''B1'')" "''T1''" "[''R1'', ''R2'']" "[(Monday, 10), (Monday, 11)]"
      "(Monday, 11)" "''R1''" "[(Monday, 12)]"]
  have first3: "take 3 (candidates (\<lambda>xs. xs) example_index example_state (''CO401'', ''B1'') ''T1'' [''R1'', ''R2''])
     = [((Monday, 10), ''R2'', 1), ((Monday, 11), ''R1'', 0), ((Monday, 11), ''R2'', 0)]"
    by code_simp
  have "((Monday, 11), ''R1'', 0)
      \<in> set (take 3 (candidates (\<lambda>xs. xs) example_index example_state (''CO401'', ''B1'') ''T1'' [''R1'', ''R2'']))"
    unfolding first3 by simp
  then have mem: "((Monday, 11), ''R1'', 0)
      \<in> set (candidates (\<lambda>xs. xs) example_index example_state (''CO401'', ''B1'') ''T1'' [''R1'', ''R2''])"
    by (rule in_set_takeD)
  then have ne: "candidates (\<lambda>xs. xs) example_index example_state (''CO401'', ''B1'') ''T1'' [''R1'', ''R2''] \<noteq> []"
    by auto
  have "cost ((Monday, 11), ''R1'', 0) = 0" by (simp add: cost_def)
  with mem have ex: "\<exists>x \<in> set (candidates (\<lambda>xs. xs) example_index example_state (''CO401'', ''B1'') ''T1'' [''R1'', ''R2'']).
      cost x = 0"
    by blast
  from policy ne ex have zero: "find_best_slot (\<lambda>xs. xs) example_index example_state (''CO401'', ''B1'') ''T1'' [''R1'', ''R2'']
     = find (\<lambda>x. cost x = 0)
         (candidates (\<lambda>xs. xs) example_index example_state (''CO401'', ''B1'') ''T1'' [''R1'', ''R2''])"
    by simp
  have val: "find_best_slot (\<lambda>xs. xs) example_index example_state (''CO401'', ''B1'') ''T1'' [''R1'', ''R2'']
     = Some ((Monday, 11), ''R1'', 0)"
    by code_simp
  have pre: "scan_slots (\<lambda>xs. xs) example_index example_state (''CO401'', ''B1'') ''T1'' [''R1'', ''R2'']
       [(Monday, 10), (Monday, 11)] None = Some ((Monday, 11), ''R1'', 0)"
    by code_simp
  from policy pre have post: "scan_slots (\<lambda>xs. xs) example_index example_state (''CO401'', ''B1'') ''T1'' [''R1'', ''R2'']
       ([(Monday, 10), (Monday, 11)] @ [(Monday, 12)]) None = Some ((Monday, 11), ''R1'', 0)"
    by blast
  from first3 zero val pre post show ?thesis by blast
qed

section \<open>No double booking\<close>

text \<open>How many entries put a teacher, or a room, into a slot.\<close>

definition teacher_bookings :: "ScheduleEntry list \<Rightarrow> slot_key \<Rightarrow> string \<Rightarrow> nat" where
  "teacher_bookings es k t = length (filter (\<lambda>e. entry_slot e = k \<and> teacher_name e = t) es)"

definition room_bookings :: "ScheduleEntry list \<Rightarrow> slot_key \<Rightarrow> string \<Rightarrow> nat" where
  "room_bookings es k r = length (filter (\<lambda>e. entry_slot e = k \<and> room_id e = r) es)"

definition no_double_booking :: "ScheduleEntry list \<Rightarrow> bool" where
  "no_double_booking es \<longleftrightarrow>
     (\<forall>k t. teacher_bookings es k t \<le> 1) \<and> (\<forall>k r. room_bookings es k r \<le> 1)"

definition slot_teacher :: "ScheduleEntry \<Rightarrow> slot_key \<times> string" where
  "slot_teacher e = (entry_slot e, teacher_name e)"

definition slot_room :: "ScheduleEntry \<Rightarrow> slot_key \<times> string" where
  "slot_room e = (entry_slot e, room_id e)"

lemma distinct_map_filter_le_1:
  "distinct (map f xs) \<Longrightarrow> length (filter (\<lambda>x. f x = v) xs) \<le> 1"
proof (induction xs)
  case Nil
  show ?case by simp
next
  case (Cons x xs)
  show ?case
  proof (cases "f x = v")
    case True
    with Cons.prems have "v \<notin> f ` set xs" by auto
    then have "filter (\<lambda>x. f x = v) xs = []"
      by (auto simp: filter_empty_conv)
    with True show ?thesis by simp
  next
    case False
    with Cons show ?thesis by simp
  qed
qed

lemma no_double_booking_distinct:
  assumes "distinct (map slot_teacher es)" "distinct (map slot_room es)"
  shows "no_double_booking es"
proof -
  have "teacher_bookings es k t \<le> 1" for k t
    using distinct_map_filter_le_1 [OF assms(1), of "(k, t)"]
    by (simp add: teacher_bookings_def slot_teacher_def)
  moreover have "room_bookings es k r \<le> 1" for k r
    using distinct_map_filter_le_1 [OF assms(2), of "(k, r)"]
    by (simp add: room_bookings_def slot_room_def)
  ultimately show ?thesis by (simp add: no_double_booking_def)
qed

text \<open>
  The invariant of the planner's loop: the occupancy tables cover the entries, and no
  two entries share a slot and a teacher, or a slot and a room.
\<close>

definition occupancy_ok :: "planner_state \<Rightarrow> bool" where
  "occupancy_ok st \<longleftrightarrow>
     (\<forall>e \<in> set (entries st). teacher_name e \<in> teacher_schedule st (entry_slot e)) \<and>
     (\<forall>e \<in> set (entries st). room_schedule st (entry_slot e, room_id e)) \<and>
     distinct (map slot_teacher (entries st)) \<and>
     distinct (map slot_room (entries st))"

lemma candidates_member:
  "(k, room, n) \<in> set (candidates iter idx st c tchr rooms) \<longleftrightarrow>
     k \<in> set all_slots \<and> tchr \<notin> teacher_schedule st k \<and> room \<in> set rooms \<and>
     \<not> room_schedule st (k, room) \<and> n = count_slot_conflicts iter idx st k c"
  by (auto simp: candidates_def candidates_in_def slot_candidates_def)

lemma first_of_min_cost_member: "first_of_min_cost xs = Some x \<Longrightarrow> x \<in> set xs"
  by (auto simp: first_of_min_cost_def find_Some_iff split: if_splits)

lemma find_best_slot_Some:
  assumes "find_best_slot iter idx st c tchr rooms = Some (k, room, n)"
  shows "k \<in> set all_slots" "tchr \<notin> teacher_schedule st k" "room \<in> set rooms"
    "\<not> room_schedule st (k, room)" "n = count_slot_conflicts iter idx st k c"
proof -
  have "find_best_slot iter idx st c tchr rooms
      = first_of_min_cost (candidates iter idx st c tchr rooms)"
    by (simp add: find_best_slot_def candidates_def scan_slots_first_of_min_cost)
  with assms have "(k, room, n) \<in> set (candidates iter idx st c tchr rooms)"
    by (simp add: first_of_min_cost_member)
  then show "k \<in> set all_slots" "tchr \<notin> teacher_schedule st k" "room \<in> set rooms"
    "\<not> room_schedule st (k, room)" "n = count_slot_conflicts iter idx st k c"
    by (simp_all add: candidates_member)
qed

lemma commit_entries:
  "entries (commit s k room n st) = entries st @
     [\<lparr>course_code = sess_course s, batch_id = sess_batch s, teacher_name = sess_teacher s,
       room_id = room, time_slot = \<lparr>day = fst k, hour = snd k\<rparr>,
       session_type = sess_type s, student_count = sess_students s\<rparr>]"
  by (simp add: commit_def)

lemma commit_occupancy_ok:
  assumes "occupancy_ok st" "sess_teacher s \<notin> teacher_schedule st k"
    "\<not> room_schedule st (k, room)"
  shows "occupancy_ok (commit s k room n st)"
proof -
  let ?e = "\<lparr>course_code = sess_course s, batch_id = sess_batch s, teacher_name = sess_teacher s,
       room_id = room, time_slot = \<lparr>day = fst k, hour = snd k\<rparr>,
       session_type = sess_type s, student_count = sess_students s\<rparr>"
  have slot: "entry_slot ?e = k" by (simp add: entry_slot_def)
  have t_new: "slot_teacher ?e \<notin> slot_teacher ` set (entries st)"
    using assms(1,2) slot by (auto simp: occupancy_ok_def slot_teacher_def)
  have r_new: "slot_room ?e \<notin> slot_room ` set (entries st)"
    using assms(1,3) slot by (auto simp: occupancy_ok_def slot_room_def)
  have cover_t: "\<forall>e \<in> set (entries st @ [?e]).
      teacher_name e \<in> teacher_schedule (commit s k room n st) (entry_slot e)"
    using assms(1) slot by (auto simp: occupancy_ok_def commit_def)
  have cover_r: "\<forall>e \<in> set (entries st @ [?e]).
      room_schedule (commit s k room n st) (entry_slot e, room_id e)"
    using assms(1) slot by (auto simp: occupancy_ok_def commit_def)
  from assms(1) t_new r_new cover_t cover_r show ?thesis
    unfolding occupancy_ok_def commit_entries by simp
qed

lemma schedule_hours_occupancy_ok:
  "occupancy_ok st \<Longrightarrow> occupancy_ok (schedule_hours iter idx s rooms n st)"
proof (induction n arbitrary: st)
  case 0
  then show ?case by simp
next
  case (Suc n)
  show ?case
  proof (cases "find_best_slot iter idx st (sess_course s, sess_batch s) (sess_teacher s) rooms")
    case None
    with Suc.prems show ?thesis by simp
  next
    case (Some x)
    obtain k room m where x: "x = (k, room, m)" by (cases x)
    from find_best_slot_Some [OF Some [unfolded x]]
    have "sess_teacher s \<notin> teacher_schedule st k" "\<not> room_schedule st (k, room)" by simp_all
    with Suc.prems have "occupancy_ok (commit s k room m st)"
      by (simp add: commit_occupancy_ok)
    then have "occupancy_ok (schedule_hours iter idx s rooms n (commit s k room m st))"
      by (rule Suc.IH)
    with Some x show ?thesis by simp
  qed
qed

lemma fold_schedule_session_occupancy_ok:
  "occupancy_ok st \<Longrightarrow> occupancy_ok (fold (schedule_session iter idx) ss st)"
  by (induction ss arbitrary: st)
     (simp_all add: schedule_session_def schedule_hours_occupancy_ok)

lemma initial_state_occupancy_ok: "occupancy_ok initial_state"
  by (simp add: occupancy_ok_def initial_state_def)

lemma generate_proposal_occupancy_ok:
  "generate_proposal iter idx courses = Inr st \<Longrightarrow> occupancy_ok st"
  by (auto simp: generate_proposal_def Let_def fold_schedule_session_occupancy_ok
      initial_state_occupancy_ok split: if_splits)

lemma generate_proposal_no_double_booking:
  "generate_proposal iter idx courses = Inr st \<Longrightarrow> no_double_booking (entries st)"
  using generate_proposal_occupancy_ok [of iter idx courses st]
  by (simp add: occupancy_ok_def no_double_booking_distinct)

section \<open>Recomputing the student conflicts (RefinementAgent.calculate\_conflicts)\<close>

text \<open>
  \<open>slot_courses[key].append(...)\<close> on a \<open>defaultdict(list)\<close>: the dictionary is
  the list of its items in insertion order.
\<close>

fun dict_append :: "'k \<Rightarrow> 'v \<Rightarrow> ('k \<times> 'v list) list \<Rightarrow> ('k \<times> 'v list) list" where
  "dict_append k v [] = [(k, [v])]"
| "dict_append k v ((k', vs) # d) =
     (if k = k' then (k', vs @ [v]) # d else (k', vs) # dict_append k v d)"

definition group_by_slot :: "ScheduleEntry list \<Rightarrow> (slot_key \<times> cb list) list" where
  "group_by_slot es = fold (\<lambda>e d. dict_append (entry_slot e) (entry_cb e) d) es []"

text \<open>\<open>for i, cb1 in enumerate(cbs): for cb2 in cbs[i+1:]: total += ...\<close>\<close>

fun pairs_loop :: "(cb \<times> cb \<Rightarrow> nat) \<Rightarrow> cb list \<Rightarrow> nat \<Rightarrow> nat" where
  "pairs_loop pc [] tot = tot"
| "pairs_loop pc (cb1 # rest) tot =
     pairs_loop pc rest (fold (\<lambda>cb2 t. t + pc (pair_key cb1 cb2)) rest tot)"

definition calculate_conflicts :: "ScheduleEntry list \<Rightarrow> (cb \<times> cb \<Rightarrow> nat) \<Rightarrow> nat" where
  "calculate_conflicts es pc =
     fold (\<lambda>cbs tot. pairs_loop pc cbs tot) (map snd (group_by_slot es)) 0"

section \<open>The running total equals the recomputed conflicts\<close>

fun pair_sum :: "(cb \<times> cb \<Rightarrow> nat) \<Rightarrow> cb list \<Rightarrow> nat" where
  "pair_sum pc [] = 0"
| "pair_sum pc (a # rest) = sum_list (map (\<lambda>b. pc (pair_key a b)) rest) + pair_sum pc rest"

lemma fold_add_sum_list: "fold (\<lambda>x t. t + f x) xs (tot::nat) = tot + sum_list (map f xs)"
  by (induction xs arbitrary: tot) simp_all

lemma pairs_loop_pair_sum: "pairs_loop pc cbs tot = tot + pair_sum pc cbs"
  by (induction cbs arbitrary: tot) (simp_all add: fold_add_sum_list)

lemma pair_sum_snoc:
  "pair_sum pc (xs @ [c]) = pair_sum pc xs + sum_list (map (\<lambda>x. pc (pair_key x c)) xs)"
  by (induction xs) simp_all

definition dict_total :: "(cb \<times> cb \<Rightarrow> nat) \<Rightarrow> (slot_key \<times> cb list) list \<Rightarrow> nat" where
  "dict_total pc d = sum_list (map (\<lambda>x. pair_sum pc (snd x)) d)"

lemma fold_pairs_loop: "fold (\<lambda>cbs tot. pairs_loop pc cbs tot) gs tot
    = tot + sum_list (map (pair_sum pc) gs)"
  by (induction gs arbitrary: tot) (simp_all add: pairs_loop_pair_sum)

lemma calculate_conflicts_dict_total:
  "calculate_conflicts es pc = dict_total pc (group_by_slot es)"
  by (simp add: calculate_conflicts_def dict_total_def fold_pairs_loop comp_def case_prod_beta)

definition lookup_list :: "('k \<times> 'v list) list \<Rightarrow> 'k \<Rightarrow> 'v list" where
  "lookup_list d k = (case map_of d k of None \<Rightarrow> [] | Some vs \<Rightarrow> vs)"

lemma lookup_list_dict_append:
  "lookup_list (dict_append k' v d) k
     = (if k = k' then lookup_list d k @ [v] else lookup_list d k)"
  by (induction d) (auto simp: lookup_list_def)

lemma dict_total_dict_append:
  "dict_total pc (dict_append k c d)
     = dict_total pc d + sum_list (map (\<lambda>x. pc (pair_key x c)) (lookup_list d k))"
  by (induction d) (auto simp: dict_total_def lookup_list_def pair_sum_snoc)

lemma group_by_slot_snoc:
  "group_by_slot (es @ [e]) = dict_append (entry_slot e) (entry_cb e) (group_by_slot es)"
  by (simp add: group_by_slot_def)

lemma lookup_group_by_slot:
  "lookup_list (group_by_slot es) k = map entry_cb (filter (\<lambda>e. entry_slot e = k) es)"
proof (induction es arbitrary: k rule: rev_induct)
  case Nil
  show ?case by (simp add: group_by_slot_def lookup_list_def)
next
  case (snoc e es)
  then show ?case by (simp add: group_by_slot_snoc lookup_list_dict_append)
qed

lemma calculate_conflicts_snoc:
  "calculate_conflicts (es @ [e]) pc = calculate_conflicts es pc
     + sum_list (map (\<lambda>x. pc (pair_key x (entry_cb e)))
         (map entry_cb (filter (\<lambda>e'. entry_slot e' = entry_slot e) es)))"
  by (simp add: calculate_conflicts_dict_total group_by_slot_snoc dict_total_dict_append
      lookup_group_by_slot)

text \<open>
  In a built index a pair has a count only when each of the two is in the adjacency set
  of the other, so the membership test of the cost function drops nothing.
\<close>

definition counts_adjacent :: "conflict_index \<Rightarrow> bool" where
  "counts_adjacent idx \<longleftrightarrow>
     (\<forall>a b. pair_student_count idx (a, b) \<noteq> 0 \<longrightarrow>
        b \<in> student_conflicts idx a \<and> a \<in> student_conflicts idx b)"

lemma add_pair_counts_adjacent:
  "counts_adjacent idx \<Longrightarrow> counts_adjacent (add_pair x y idx)"
  unfolding counts_adjacent_def add_pair_def Let_def pair_key_def
  by (auto simp: fun_upd_def)

lemma fold_add_pair_counts_adjacent:
  "counts_adjacent idx \<Longrightarrow> counts_adjacent (fold (add_pair x) ys idx)"
  by (induction ys arbitrary: idx) (simp_all add: add_pair_counts_adjacent)

lemma load_row_counts_adjacent:
  "counts_adjacent idx \<Longrightarrow> counts_adjacent (load_row row idx)"
  by (induction row arbitrary: idx) (simp_all add: fold_add_pair_counts_adjacent)

lemma fold_load_row_counts_adjacent:
  "counts_adjacent idx \<Longrightarrow> counts_adjacent (fold load_row rows idx)"
  by (induction rows arbitrary: idx) (simp_all add: load_row_counts_adjacent)

lemma load_counts_adjacent: "counts_adjacent (load_student_conflicts rows)"
  unfolding load_student_conflicts_def
  by (rule fold_load_row_counts_adjacent) (simp add: counts_adjacent_def empty_index_def)

lemma conflict_weight_pair_count:
  assumes "counts_adjacent idx"
  shows "conflict_weight idx c x = pair_student_count idx (pair_key x c)"
proof (cases "x \<in> student_conflicts idx c")
  case True
  then show ?thesis by (simp add: conflict_weight_def pair_key_commute [of c x])
next
  case False
  have "pair_student_count idx (pair_key x c) = 0"
  proof (rule ccontr)
    assume "pair_student_count idx (pair_key x c) \<noteq> 0"
    with assms have "x \<in> student_conflicts idx c"
      unfolding counts_adjacent_def pair_key_def by (metis (full_types))
    with False show False by simp
  qed
  with False show ?thesis by (simp add: conflict_weight_def)
qed


text \<open>The teacher of a course-batch, as the session groups read it from the courses.\<close>

definition course_teacher :: "(string \<times> Course) list \<Rightarrow> cb \<Rightarrow> string" where
  "course_teacher courses c =
     (case map_of courses (fst c) of None \<Rightarrow> ''TBA'' | Some crs \<Rightarrow> teacher_for crs (snd c))"

text \<open>
  The invariant of the planner's loop behind the running total: the slot contents are
  the course-batches of the entries of the slot, every entry carries the teacher of its
  course-batch and that teacher is marked busy, and the total is the recomputed one.
\<close>

definition conflicts_tracked :: "(cb \<Rightarrow> string) \<Rightarrow> (cb \<times> cb \<Rightarrow> nat) \<Rightarrow> planner_state \<Rightarrow> bool" where
  "conflicts_tracked tf pc st \<longleftrightarrow>
     (\<forall>k. slot_courses st k = map entry_cb (filter (\<lambda>e. entry_slot e = k) (entries st))) \<and>
     (\<forall>e \<in> set (entries st). teacher_name e = tf (entry_cb e)) \<and>
     (\<forall>e \<in> set (entries st). teacher_name e \<in> teacher_schedule st (entry_slot e)) \<and>
     total_conflicts st = calculate_conflicts (entries st) pc"

lemma sum_list_map_mset_cong:
  "mset xs = mset ys \<Longrightarrow> sum_list (map f xs) = (sum_list (map f ys) :: nat)"
proof -
  assume "mset xs = mset ys"
  then have "mset (map f xs) = mset (map f ys)" by simp
  then have "sum_mset (mset (map f xs)) = sum_mset (mset (map f ys))" by (rule arg_cong)
  then show ?thesis by (simp only: sum_mset_sum_list)
qed

lemma count_slot_conflicts_sum_list:
  assumes "\<forall>xs. mset (iter xs) = mset xs"
  shows "count_slot_conflicts iter idx st k c
     = sum_list (map (conflict_weight idx c) (slot_courses st k))"
proof -
  from assms have "mset (iter (slot_courses st k)) = mset (slot_courses st k)" by simp
  then have "sum_list (map (conflict_weight idx c) (iter (slot_courses st k)))
      = sum_list (map (conflict_weight idx c) (slot_courses st k))"
    by (rule sum_list_map_mset_cong)
  then show ?thesis by (simp add: count_slot_conflicts_def fold_add_sum_list)
qed

lemma count_slot_conflicts_pair_counts:
  assumes "\<forall>xs. mset (iter xs) = mset xs" "counts_adjacent idx"
  shows "count_slot_conflicts iter idx st k c
     = sum_list (map (\<lambda>x. pair_student_count idx (pair_key x c)) (slot_courses st k))"
proof -
  have "conflict_weight idx c = (\<lambda>x. pair_student_count idx (pair_key x c))"
    by (rule ext) (rule conflict_weight_pair_count [OF assms(2)])
  then show ?thesis
    by (simp only: count_slot_conflicts_sum_list [OF assms(1)])
qed

lemma commit_conflicts_tracked:
  assumes inv: "conflicts_tracked tf pc st"
    and teacher: "sess_teacher s = tf (sess_course s, sess_batch s)"
    and free: "sess_teacher s \<notin> teacher_schedule st k"
    and n: "n = sum_list (map (\<lambda>x. pc (pair_key x (sess_course s, sess_batch s))) (slot_courses st k))"
  shows "conflicts_tracked tf pc (commit s k room n st)"
proof -
  let ?e = "\<lparr>course_code = sess_course s, batch_id = sess_batch s, teacher_name = sess_teacher s,
       room_id = room, time_slot = \<lparr>day = fst k, hour = snd k\<rparr>,
       session_type = sess_type s, student_count = sess_students s\<rparr>"
  let ?c = "(sess_course s, sess_batch s)"
  have slot: "entry_slot ?e = k" by (simp add: entry_slot_def)
  have ecb: "entry_cb ?e = ?c" by (simp add: entry_cb_def)
  from inv have contents: "\<And>k'. slot_courses st k'
      = map entry_cb (filter (\<lambda>e. entry_slot e = k') (entries st))"
    and teachers: "\<And>e. e \<in> set (entries st) \<Longrightarrow> teacher_name e = tf (entry_cb e)"
    and busy: "\<And>e. e \<in> set (entries st) \<Longrightarrow> teacher_name e \<in> teacher_schedule st (entry_slot e)"
    and tot: "total_conflicts st = calculate_conflicts (entries st) pc"
    unfolding conflicts_tracked_def by blast+
  have fresh: "?c \<notin> set (slot_courses st k)"
  proof
    assume "?c \<in> set (slot_courses st k)"
    then obtain e where e: "e \<in> set (entries st)" "entry_slot e = k" "entry_cb e = ?c"
      unfolding contents by auto
    from teachers [OF e(1)] e(3) teacher have "teacher_name e = sess_teacher s" by simp
    with busy [OF e(1)] e(2) free show False by simp
  qed
  have c1: "slot_courses (commit s k room n st) k'
      = map entry_cb (filter (\<lambda>e. entry_slot e = k') (entries (commit s k room n st)))" for k'
  proof (cases "k' = k")
    case True
    have "slot_courses (commit s k room n st) k = slot_courses st k @ [?c]"
      using fresh by (simp add: commit_def set_add_def)
    then show ?thesis
      unfolding True commit_entries by (simp add: contents slot ecb)
  next
    case False
    then have "slot_courses (commit s k room n st) k' = slot_courses st k'"
      by (simp add: commit_def)
    then show ?thesis
      unfolding commit_entries using False by (simp add: contents slot)
  qed
  have c2: "\<forall>e \<in> set (entries (commit s k room n st)). teacher_name e = tf (entry_cb e)"
    unfolding commit_entries using teachers teacher by (auto simp: entry_cb_def)
  have c3: "\<forall>e \<in> set (entries (commit s k room n st)).
      teacher_name e \<in> teacher_schedule (commit s k room n st) (entry_slot e)"
    using busy slot by (auto simp: commit_def)
  have "total_conflicts (commit s k room n st) = total_conflicts st + n"
    by (simp add: commit_def)
  also have "\<dots> = calculate_conflicts (entries st @ [?e]) pc"
    unfolding calculate_conflicts_snoc slot ecb tot n contents ..
  finally have c4: "total_conflicts (commit s k room n st)
      = calculate_conflicts (entries (commit s k room n st)) pc"
    unfolding commit_entries .
  from c1 c2 c3 c4 show ?thesis unfolding conflicts_tracked_def by blast
qed

lemma schedule_hours_conflicts_tracked:
  assumes "\<forall>xs. mset (iter xs) = mset xs" "counts_adjacent idx"
    "sess_teacher s = tf (sess_course s, sess_batch s)"
  shows "conflicts_tracked tf (pair_student_count idx) st \<Longrightarrow>
     conflicts_tracked tf (pair_student_count idx) (schedule_hours iter idx s rooms n st)"
proof (induction n arbitrary: st)
  case 0
  then show ?case by simp
next
  case (Suc n)
  show ?case
  proof (cases "find_best_slot iter idx st (sess_course s, sess_batch s) (sess_teacher s) rooms")
    case None
    with Suc.prems show ?thesis by simp
  next
    case (Some x)
    obtain k room m where x: "x = (k, room, m)" by (cases x)
    from find_best_slot_Some [OF Some [unfolded x]]
    have free: "sess_teacher s \<notin> teacher_schedule st k"
      and m: "m = count_slot_conflicts iter idx st k (sess_course s, sess_batch s)"
      by simp_all
    from m have "m = sum_list (map (\<lambda>x. pair_student_count idx
        (pair_key x (sess_course s, sess_batch s))) (slot_courses st k))"
      by (simp only: count_slot_conflicts_pair_counts [OF assms(1,2)])
    with Suc.prems assms(3) free
    have "conflicts_tracked tf (pair_student_count idx) (commit s k room m st)"
      by (rule commit_conflicts_tracked)
    then have "conflicts_tracked tf (pair_student_count idx)
        (schedule_hours iter idx s rooms n (commit s k room m st))"
      by (rule Suc.IH)
    with Some x show ?thesis by simp
  qed
qed

lemma fold_schedule_session_conflicts_tracked:
  assumes "\<forall>xs. mset (iter xs) = mset xs" "counts_adjacent idx"
  shows "\<forall>s \<in> set ss. sess_teacher s = tf (sess_course s, sess_batch s) \<Longrightarrow>
     conflicts_tracked tf (pair_student_count idx) st \<Longrightarrow>
     conflicts_tracked tf (pair_student_count idx) (fold (schedule_session iter idx) ss st)"
proof (induction ss arbitrary: st)
  case Nil
  then show ?case by simp
next
  case (Cons s ss)
  from Cons.prems have t: "sess_teacher s = tf (sess_course s, sess_batch s)" by simp
  have "conflicts_tracked tf (pair_student_count idx) (schedule_session iter idx s st)"
    unfolding schedule_session_def
    by (rule schedule_hours_conflicts_tracked [OF assms t Cons.prems(2)])
  with Cons.IH Cons.prems(1) show ?case by simp
qed

lemma sessions_teacher:
  assumes "distinct (map fst courses)" "s \<in> set (sessions_to_schedule idx courses)"
  shows "sess_teacher s = course_teacher courses (sess_course s, sess_batch s)"
proof -
  from assms(2) obtain k c i b where kc: "(k, c) \<in> set courses"
    and s: "s \<in> set (batch_sessions idx k c (i, b))"
    by (auto simp: sessions_to_schedule_def)
  from assms(1) kc have "map_of courses k = Some c" by simp
  moreover from s have "sess_teacher s = teacher_for c b \<and> sess_course s = k \<and> sess_batch s = b"
    by (auto simp: batch_sessions_def Let_def split: if_splits)
  ultimately show ?thesis by (simp add: course_teacher_def)
qed

lemma initial_state_conflicts_tracked: "conflicts_tracked tf pc initial_state"
  by (simp add: conflicts_tracked_def initial_state_def calculate_conflicts_def group_by_slot_def)

text \<open>
  Claim C10. For an index built from enrollment records, a courses dictionary (its keys
  are distinct) and any enumeration order of the slot sets, the running total that
  \<open>generate_proposal\<close> accumulates is the conflict count that
  \<open>calculate_conflicts\<close> recomputes from the final entries and the pair counts.
\<close>

theorem total_conflicts_recomputed:
  assumes "\<forall>xs. mset (iter xs) = mset xs"
    and "distinct (map fst courses)"
    and "generate_proposal iter (load_student_conflicts rows) courses = Inr st"
  shows "total_conflicts st
     = calculate_conflicts (entries st) (pair_student_count (load_student_conflicts rows))"
proof -
  let ?idx = "load_student_conflicts rows"
  let ?ss = "sort_key (\<lambda>x. - int (sess_conflicts x)) (sessions_to_schedule ?idx courses)"
  from assms(3) have st: "st = fold (schedule_session iter ?idx) ?ss initial_state"
    by (simp add: generate_proposal_def Let_def split: if_splits)
  have "\<forall>s \<in> set ?ss. sess_teacher s = course_teacher courses (sess_course s, sess_batch s)"
    using sessions_teacher [OF assms(2)] by simp
  with assms(1) load_counts_adjacent
  have "conflicts_tracked (course_teacher courses) (pair_student_count ?idx)
      (fold (schedule_session iter ?idx) ?ss initial_state)"
    by (rule fold_schedule_session_conflicts_tracked) (rule initial_state_conflicts_tracked)
  then show ?thesis unfolding st by (simp add: conflicts_tracked_def)
qed

text \<open>
  Ten courses of one teacher fill all forty slots; an eleventh course of another teacher
  shares a student with each of them, so each of its four hours costs one conflict.
\<close>

definition crowded_courses :: "(string \<times> Course) list" where
  "crowded_courses =
     [(''K01'', \<lparr>code = ''K01'', course_type = THEORY_4HR, total_batches = 1,
        batches = [''B1''], batch_sizes = [40], teacher_assignments = [(''B1'', ''T1'')]\<rparr>),
      (''K02'', \<lparr>code = ''K02'', course_type = THEORY_4HR, total_batches = 1,
        batches = [''B1''], batch_sizes = [40], teacher_assignments = [(''B1'', ''T1'')]\<rparr>),
      (''K03'', \<lparr>code = ''K03'', course_type = THEORY_4HR, total_batches = 1,
        batches = [''B1''], batch_sizes = [40], teacher_assignments = [(''B1'', ''T1'')]\<rparr>),
      (''K04'', \<lparr>code = ''K04'', course_type = THEORY_4HR, total_batches = 1,
        batches = [''B1''], batch_sizes = [40], teacher_assignments = [(''B1'', ''T1'')]\<rparr>),
      (''K05'', \<lparr>code = ''K05'', course_type = THEORY_4HR, total_batches = 1,
        batches = [''B1''], batch_sizes = [40], teacher_assignments = [(''B1'', ''T1'')]\<rparr>),
      (''K06'', \<lparr>code = ''K06'', course_type = THEORY_4HR, total_batches = 1,
        batches = [''B1''], batch_sizes = [40], teacher_assignments = [(''B1'', ''T1'')]\<rparr>),
      (''K07'', \<lparr>code = ''K07'', course_type = THEORY_4HR, total_batches = 1,
        batches = [''B1''], batch_sizes = [40], teacher_assignments = [(''B1'', ''T1'')]\<rparr>),
      (''K08'', \<lparr>code = ''K08'', course_type = THEORY_4HR, total_batches = 1,
        batches = [''B1''], batch_sizes = [40], teacher_assignments = [(''B1'', ''T1'')]\<rparr>),
      (''K09'', \<lparr>code = ''K09'', course_type = THEORY_4HR, total_batches = 1,
        batches = [''B1''], batch_sizes = [40], teacher_assignments = [(''B1'', ''T1'')]\<rparr>),
      (''K10'', \<lparr>code = ''K10'', course_type = THEORY_4HR, total_batches = 1,
        batches = [''B1''], batch_sizes = [40], teacher_assignments = [(''B1'', ''T1'')]\<rparr>),
      (''M01'', \<lparr>code = ''M01'', course_type = THEORY_4HR, total_batches = 1,
        batches = [''B1''], batch_sizes = [40], teacher_assignments = [(''B1'', ''T2'')]\<rparr>)]"

definition crowded_index :: conflict_index where
  "crowded_index = load_student_conflicts
      [[(''K01'', ''B1''), (''K02'', ''B1''), (''K03'', ''B1''), (''K04'', ''B1''),
        (''K05'', ''B1''), (''K06'', ''B1''), (''K07'', ''B1''), (''K08'', ''B1''),
        (''K09'', ''B1''), (''K10'', ''B1''), (''M01'', ''B1'')]]"

theorem total_conflicts_recomputed_witness:
  "\<exists>st. generate_proposal (\<lambda>xs. xs) crowded_index crowded_courses = Inr st
     \<and> length (entries st) = 44
     \<and> total_conflicts st = 4
     \<and> calculate_conflicts (entries st) (pair_student_count crowded_index) = 4"
proof -
  have run: "map_sum id (\<lambda>st. (length (entries st), total_conflicts st))
      (generate_proposal (\<lambda>xs. xs) crowded_index crowded_courses) = Inr (44, 4)"
    by code_simp
  then obtain st where st: "generate_proposal (\<lambda>xs. xs) crowded_index crowded_courses = Inr st"
    by (cases "generate_proposal (\<lambda>xs. xs) crowded_index crowded_courses") auto
  with run have vals: "length (entries st) = 44" "total_conflicts st = 4" by simp_all
  have keys: "distinct (map fst crowded_courses)"
    by (simp add: crowded_courses_def)
  have "\<forall>xs::cb list. mset ((\<lambda>xs. xs) xs) = mset xs" by simp
  from total_conflicts_recomputed [OF this keys st [unfolded crowded_index_def]]
  have "total_conflicts st = calculate_conflicts (entries st) (pair_student_count crowded_index)"
    by (simp add: crowded_index_def)
  with st vals show ?thesis by auto
qed

section \<open>Determinism of the conflict-aware planner\<close>

lemma slot_candidates_iter:
  assumes "\<forall>xs. mset (iter1 xs) = mset xs" "\<forall>xs. mset (iter2 xs) = mset xs"
  shows "slot_candidates iter1 idx st c tchr rooms k = slot_candidates iter2 idx st c tchr rooms k"
  by (simp add: slot_candidates_def count_slot_conflicts_sum_list [OF assms(1)]
      count_slot_conflicts_sum_list [OF assms(2)])

lemma find_best_slot_iter:
  assumes "\<forall>xs. mset (iter1 xs) = mset xs" "\<forall>xs. mset (iter2 xs) = mset xs"
  shows "find_best_slot iter1 idx st c tchr rooms = find_best_slot iter2 idx st c tchr rooms"
  by (simp add: find_best_slot_def scan_slots_pick slot_candidates_iter [OF assms])

lemma schedule_hours_iter:
  assumes "\<forall>xs. mset (iter1 xs) = mset xs" "\<forall>xs. mset (iter2 xs) = mset xs"
  shows "schedule_hours iter1 idx s rooms n st = schedule_hours iter2 idx s rooms n st"
proof (induction n arbitrary: st)
  case 0
  show ?case by simp
next
  case (Suc n)
  then show ?case
    by (simp add: find_best_slot_iter [OF assms] split: option.splits)
qed

lemma schedule_session_iter:
  assumes "\<forall>xs. mset (iter1 xs) = mset xs" "\<forall>xs. mset (iter2 xs) = mset xs"
  shows "schedule_session iter1 idx = schedule_session iter2 idx"
  by (intro ext) (simp add: schedule_session_def schedule_hours_iter [OF assms])

text \<open>
  Claim C8. The only thing in \<open>generate_proposal\<close> that can differ between two
  runs on the same courses and the same index, both from empty occupancy, is the order
  in which each run enumerates the slot sets. Whatever these two orders are, both runs
  give the same result: the same entries in the same order and the same counters, or the
  same error.
\<close>

theorem generate_proposal_deterministic:
  assumes "\<forall>xs. mset (iter1 xs) = mset xs" and "\<forall>xs. mset (iter2 xs) = mset xs"
  shows "generate_proposal iter1 idx courses = generate_proposal iter2 idx courses"
  unfolding generate_proposal_def schedule_session_iter [OF assms] by (rule refl)

definition two_courses :: "(string \<times> Course) list" where
  "two_courses =
     [(''CO401'', \<lparr>code = ''CO401'', course_type = THEORY_3HR_LAB_2HR, total_batches = 1,
         batches = [''B1''], batch_sizes = [40], teacher_assignments = [(''B1'', ''T1'')]\<rparr>),
      (''CO403'', \<lparr>code = ''CO403'', course_type = THEORY_4HR, total_batches = 1,
         batches = [''B1''], batch_sizes = [35], teacher_assignments = [(''B1'', ''T2'')]\<rparr>)]"

theorem generate_proposal_deterministic_witness:
  "generate_proposal rev example_index two_courses
     = generate_proposal (\<lambda>xs. xs) example_index two_courses
   \<and> map_sum id (\<lambda>st. map (\<lambda>e. (entry_cb e, entry_slot e, room_id e)) (entries st))
       (generate_proposal rev example_index two_courses)
     = Inr [((''CO401'', ''B1''), (Monday, 10), ''R1''), ((''CO401'', ''B1''), (Monday, 11), ''R1''),
            ((''CO401'', ''B1''), (Monday, 12), ''R1''), ((''CO401'', ''B1''), (Monday, 13), ''LAB1''),
            ((''CO401'', ''B1''), (Monday, 14), ''LAB1''), ((''CO403'', ''B1''), (Monday, 15), ''R1''),
            ((''CO403'', ''B1''), (Monday, 16), ''R1''), ((''CO403'', ''B1''), (Monday, 17), ''R1''),
            ((''CO403'', ''B1''), (Tuesday, 10), ''R1'')]"
proof -
  have "\<forall>xs::cb list. mset (rev xs) = mset xs" by simp
  moreover have "\<forall>xs::cb list. mset ((\<lambda>xs. xs) xs) = mset xs" by simp
  ultimately have "generate_proposal rev example_index two_courses
     = generate_proposal (\<lambda>xs. xs) example_index two_courses"
    by (rule generate_proposal_deterministic)
  moreover have "map_sum id (\<lambda>st. map (\<lambda>e. (entry_cb e, entry_slot e, room_id e)) (entries st))
       (generate_proposal rev example_index two_courses)
     = Inr [((''CO401'', ''B1''), (Monday, 10), ''R1''), ((''CO401'', ''B1''), (Monday, 11), ''R1''),
            ((''CO401'', ''B1''), (Monday, 12), ''R1''), ((''CO401'', ''B1''), (Monday, 13), ''LAB1''),
            ((''CO401'', ''B1''), (Monday, 14), ''LAB1''), ((''CO403'', ''B1''), (Monday, 15), ''R1''),
            ((''CO403'', ''B1''), (Monday, 16), ''R1''), ((''CO403'', ''B1''), (Monday, 17), ''R1''),
            ((''CO403'', ''B1''), (Tuesday, 10), ''R1'')]"
    by code_simp
  ultimately show ?thesis by blast
qed

section \<open>Planner agent (agents/planner\_agent.py, utils/student\_conflicts.py)\<close>

text \<open>
  The grid configuration. \<open>generate_all_time_slots\<close> builds a \<open>TimeSlot\<close> for
  every day and hour of the range; \<open>TimeSlot\<close> validates \<open>10 \<le> hour \<le> 17\<close>, so a
  range that leaves this interval raises \<open>ValidationError\<close>.
\<close>

record SchedulingConfig =
  cfg_days :: "Day list"
  start_hour :: int
  end_hour :: int
  num_rooms :: int
  room_capacity :: int

definition generate_all_time_slots :: "SchedulingConfig \<Rightarrow> error + TimeSlot list" where
  "generate_all_time_slots cfg =
     (let slots = concat (map (\<lambda>d. map (\<lambda>h. \<lparr>day = d, hour = h\<rparr>)
                                  [start_hour cfg..end_hour cfg - 1]) (cfg_days cfg))
      in if list_all (\<lambda>s. 10 \<le> hour s \<and> hour s \<le> 17) slots then Inr slots
         else Inl ValidationError)"

text \<open>\<open>(slot.day.value, slot.hour)\<close>\<close>

definition key_of :: "TimeSlot \<Rightarrow> slot_key" where
  "key_of s = (day s, hour s)"

text \<open>\<open>list(Day).index(s.day)\<close>\<close>

fun day_index :: "Day \<Rightarrow> nat" where
  "day_index Monday = 0"
| "day_index Tuesday = 1"
| "day_index Wednesday = 2"
| "day_index Thursday = 3"
| "day_index Friday = 4"

text \<open>
  \<open>StudentConflictMatrix\<close>: which course-batches share students, and which
  course-batches are marked at each slot. The adjacency is read from the allocation
  file when the matrix is created and is a field here.
\<close>

record StudentConflictMatrix =
  conflicts :: "cb \<Rightarrow> cb set"
  slot_schedule :: "slot_key \<Rightarrow> cb set"

definition check_slot_available :: "StudentConflictMatrix \<Rightarrow> cb \<Rightarrow> slot_key \<Rightarrow> bool" where
  "check_slot_available m c k \<longleftrightarrow> slot_schedule m k \<inter> conflicts m c = {}"

definition mark_scheduled :: "cb \<Rightarrow> slot_key \<Rightarrow> StudentConflictMatrix \<Rightarrow> StudentConflictMatrix" where
  "mark_scheduled c k m = m\<lparr>slot_schedule := (slot_schedule m)(k := insert c (slot_schedule m k))\<rparr>"

definition reset_schedule :: "StudentConflictMatrix \<Rightarrow> StudentConflictMatrix" where
  "reset_schedule m = m\<lparr>slot_schedule := (\<lambda>_. {})\<rparr>"

text \<open>
  The entries and the occupancy dictionaries of \<open>_schedule_optimized\<close>, with the
  conflict matrix of the agent.
\<close>

record agent_state =
  pa_entries :: "ScheduleEntry list"
  pa_teacher_schedule :: "slot_key \<Rightarrow> string set"
  regular_room_schedule :: "slot_key \<times> string \<Rightarrow> bool"
  lab_room_schedule :: "slot_key \<times> string \<Rightarrow> bool"
  student_matrix :: StudentConflictMatrix

text \<open>One pass of \<open>for slot in [slot1, slot2]\<close>: a lab entry and its bookkeeping.\<close>

definition place_lab :: "string \<Rightarrow> string \<Rightarrow> string \<Rightarrow> int \<Rightarrow> string \<Rightarrow> TimeSlot \<Rightarrow> agent_state \<Rightarrow> agent_state" where
  "place_lab crs b tchr students lab_room slot st =
     st\<lparr>pa_entries := pa_entries st @
          [\<lparr>course_code = crs, batch_id = b, teacher_name = tchr, room_id = lab_room,
            time_slot = slot, session_type = LAB, student_count = students\<rparr>],
        pa_teacher_schedule := (pa_teacher_schedule st)
          (key_of slot := insert tchr (pa_teacher_schedule st (key_of slot))),
        lab_room_schedule := (lab_room_schedule st)((key_of slot, lab_room) := True),
        student_matrix := mark_scheduled (crs, b) (key_of slot) (student_matrix st)\<rparr>"

definition place_theory :: "string \<Rightarrow> string \<Rightarrow> string \<Rightarrow> int \<Rightarrow> string \<Rightarrow> TimeSlot \<Rightarrow> agent_state \<Rightarrow> agent_state" where
  "place_theory crs b tchr students room slot st =
     st\<lparr>pa_entries := pa_entries st @
          [\<lparr>course_code = crs, batch_id = b, teacher_name = tchr, room_id = room,
            time_slot = slot, session_type = THEORY, student_count = students\<rparr>],
        pa_teacher_schedule := (pa_teacher_schedule st)
          (key_of slot := insert tchr (pa_teacher_schedule st (key_of slot))),
        regular_room_schedule := (regular_room_schedule st)((key_of slot, room) := True),
        student_matrix := mark_scheduled (crs, b) (key_of slot) (student_matrix st)\<rparr>"

text \<open>
  The \<open>while\<close> loop over \<open>lab_slots\<close>. The list argument is \<open>lab_slots[i:]\<close>: the
  loop runs while at least two slots remain and fewer than \<open>lab_hours\<close> lab hours are
  placed; it moves on by one slot when the pair at \<open>i\<close> cannot be used and by two when
  it has been placed.
\<close>

fun schedule_labs ::
  "Course \<Rightarrow> string \<Rightarrow> string \<Rightarrow> int \<Rightarrow> string list \<Rightarrow> TimeSlot list \<Rightarrow> nat \<Rightarrow> agent_state \<Rightarrow> agent_state" where
  "schedule_labs c b tchr students lrooms [] lab_scheduled st = st"
| "schedule_labs c b tchr students lrooms [slot1] lab_scheduled st = st"
| "schedule_labs c b tchr students lrooms (slot1 # s # ss) lab_scheduled st =
     (if \<not> lab_scheduled < lab_hours c then st
      else
        (case find (\<lambda>x. day x = day slot1 \<and> hour x = hour slot1 + 1) (s # ss) of
           None \<Rightarrow> schedule_labs c b tchr students lrooms (s # ss) lab_scheduled st
         | Some slot2 \<Rightarrow>
             if tchr \<in> pa_teacher_schedule st (key_of slot1)
                \<or> tchr \<in> pa_teacher_schedule st (key_of slot2)
             then schedule_labs c b tchr students lrooms (s # ss) lab_scheduled st
             else if \<not> check_slot_available (student_matrix st) (code c, b) (key_of slot1)
                     \<or> \<not> check_slot_available (student_matrix st) (code c, b) (key_of slot2)
             then schedule_labs c b tchr students lrooms (s # ss) lab_scheduled st
             else
               (case find (\<lambda>lr. \<not> lab_room_schedule st (key_of slot1, lr)
                               \<and> \<not> lab_room_schedule st (key_of slot2, lr)) lrooms of
                  None \<Rightarrow> schedule_labs c b tchr students lrooms (s # ss) lab_scheduled st
                | Some lab_room \<Rightarrow>
                    schedule_labs c b tchr students lrooms ss (lab_scheduled + 2)
                      (place_lab (code c) b tchr students lab_room slot2
                         (place_lab (code c) b tchr students lab_room slot1 st)))))"

text \<open>The loop over \<open>theory_slots\<close>.\<close>

fun schedule_theory ::
  "Course \<Rightarrow> string \<Rightarrow> string \<Rightarrow> int \<Rightarrow> string list \<Rightarrow> TimeSlot list \<Rightarrow> nat \<Rightarrow> agent_state \<Rightarrow> agent_state" where
  "schedule_theory c b tchr students rrooms [] theory_scheduled st = st"
| "schedule_theory c b tchr students rrooms (slot # slots) theory_scheduled st =
     (if theory_scheduled \<ge> theory_hours c then st
      else if tchr \<in> pa_teacher_schedule st (key_of slot)
      then schedule_theory c b tchr students rrooms slots theory_scheduled st
      else if \<not> check_slot_available (student_matrix st) (code c, b) (key_of slot)
      then schedule_theory c b tchr students rrooms slots theory_scheduled st
      else
        (case find (\<lambda>r. \<not> regular_room_schedule st (key_of slot, r)) rrooms of
           None \<Rightarrow> schedule_theory c b tchr students rrooms slots theory_scheduled st
         | Some room \<Rightarrow>
             schedule_theory c b tchr students rrooms slots (theory_scheduled + 1)
               (place_theory (code c) b tchr students room slot st)))"

text \<open>The body of the loop over the batches of a course: labs first, then theory.\<close>

definition schedule_batch ::
  "bool \<Rightarrow> TimeSlot list \<Rightarrow> string list \<Rightarrow> string list \<Rightarrow> Course \<Rightarrow> nat \<times> string \<Rightarrow> agent_state \<Rightarrow> agent_state" where
  "schedule_batch morning_theory slots rrooms lrooms c = (\<lambda>(batch_idx, b) st.
     (let tchr = teacher_for c b;
          students = students_for c batch_idx;
          st1 = (if lab_hours c > 0
                 then schedule_labs c b tchr students lrooms
                        (sort_key (\<lambda>s. (day_index (day s), hour s)) slots) 0 st
                 else st);
          theory_slots = sort_key (\<lambda>s. (day_index (day s),
                             if morning_theory then hour s else - hour s)) slots
      in schedule_theory c b tchr students rrooms theory_slots 0 st1))"

definition schedule_course ::
  "bool \<Rightarrow> TimeSlot list \<Rightarrow> string list \<Rightarrow> string list \<Rightarrow> Course \<Rightarrow> agent_state \<Rightarrow> agent_state" where
  "schedule_course morning_theory slots rrooms lrooms c st =
     fold (schedule_batch morning_theory slots rrooms lrooms c) (enumerate 0 (batches c)) st"

definition initial_agent_state :: "StudentConflictMatrix \<Rightarrow> agent_state" where
  "initial_agent_state m = \<lparr>pa_entries = [], pa_teacher_schedule = (\<lambda>_. {}),
     regular_room_schedule = (\<lambda>_. False), lab_room_schedule = (\<lambda>_. False), student_matrix = m\<rparr>"

text \<open>
  \<open>_schedule_optimized\<close>. Of the strategy only \<open>morning_theory\<close> is read by the
  loops. The courses are taken largest first (a stable sort of the dictionary's values).
  The result is the final state: its entries are returned, and its conflict matrix is
  the agent's when the repair pass runs.
\<close>

definition schedule_optimized ::
  "StudentConflictMatrix \<Rightarrow> (string \<times> Course) list \<Rightarrow> SchedulingConfig \<Rightarrow> bool \<Rightarrow>
   string list \<Rightarrow> string list \<Rightarrow> error + agent_state" where
  "schedule_optimized m courses cfg morning_theory rrooms lrooms =
     (case generate_all_time_slots cfg of
        Inl err \<Rightarrow> Inl err
      | Inr slots \<Rightarrow>
          (let sorted_courses =
                 sort_key (\<lambda>c. - int (total_hours c * length (batches c))) (map snd courses)
           in Inr (fold (schedule_course morning_theory slots rrooms lrooms) sorted_courses
                    (initial_agent_state m))))"


section \<open>Gap repair (PlannerAgent.\_find\_unscheduled, \_fix\_with\_teacher\_reassignment)\<close>

record unscheduled_item =
  item_course :: string
  item_batch :: string
  theory_missing :: int
  lab_missing :: int
  original_teacher :: string

text \<open>\<open>scheduled[key]["theory"]\<close> and \<open>scheduled[key]["lab"]\<close>.\<close>

definition scheduled_hours :: "ScheduleEntry list \<Rightarrow> cb \<Rightarrow> SessionType \<Rightarrow> nat" where
  "scheduled_hours es c ty = length (filter (\<lambda>e. entry_cb e = c \<and> session_type e = ty) es)"

definition find_unscheduled :: "ScheduleEntry list \<Rightarrow> (string \<times> Course) list \<Rightarrow> unscheduled_item list" where
  "find_unscheduled es courses =
     concat (map (\<lambda>(k, c). concat (map (\<lambda>b.
       (let tm = int (theory_hours c) - int (scheduled_hours es (k, b) THEORY);
            lm = int (lab_hours c) - int (scheduled_hours es (k, b) LAB)
        in if tm > 0 \<or> lm > 0
           then [\<lparr>item_course = k, item_batch = b, theory_missing = tm, lab_missing = lm,
                   original_teacher = teacher_for c b\<rparr>]
           else [])) (batches c))) courses)"

text \<open>\<open>e.room_id.startswith("LAB")\<close>\<close>

definition starts_with_LAB :: "string \<Rightarrow> bool" where
  "starts_with_LAB r \<longleftrightarrow> take 3 r = ''LAB''"

text \<open>The occupancy dictionaries rebuilt from the entries that stay.\<close>

definition record_entry :: "ScheduleEntry \<Rightarrow> agent_state \<Rightarrow> agent_state" where
  "record_entry e st =
     (let st1 = st\<lparr>pa_teacher_schedule := (pa_teacher_schedule st)
                   (entry_slot e := insert (teacher_name e) (pa_teacher_schedule st (entry_slot e)))\<rparr>
      in if starts_with_LAB (room_id e)
         then st1\<lparr>lab_room_schedule := (lab_room_schedule st1)((entry_slot e, room_id e) := True)\<rparr>
         else st1\<lparr>regular_room_schedule :=
                    (regular_room_schedule st1)((entry_slot e, room_id e) := True)\<rparr>)"

definition occupancy_of :: "StudentConflictMatrix \<Rightarrow> ScheduleEntry list \<Rightarrow> agent_state" where
  "occupancy_of m es = fold record_entry es (initial_agent_state m)"

text \<open>
  \<open>teacher_hours\<close>: the total hours of the courses in whose assignments a teacher
  stands, once per assignment.
\<close>

definition teacher_hours :: "(string \<times> Course) list \<Rightarrow> string \<Rightarrow> nat" where
  "teacher_hours courses t =
     sum_list (map (\<lambda>(k, c). total_hours c * length (filter (\<lambda>(b, t'). t' = t) (teacher_assignments c)))
                courses)"

text \<open>
  The scan for the slots of one alternate teacher. The occupancy is not updated during
  the scan; it stops once \<open>theory_needed\<close> slots are collected.
\<close>

fun potential_slots ::
  "agent_state \<Rightarrow> cb \<Rightarrow> string \<Rightarrow> string list \<Rightarrow> nat \<Rightarrow> TimeSlot list \<Rightarrow>
   (TimeSlot \<times> string \<times> SessionType) list \<Rightarrow> (TimeSlot \<times> string \<times> SessionType) list" where
  "potential_slots st c alt_teacher rrooms theory_needed [] acc = acc"
| "potential_slots st c alt_teacher rrooms theory_needed (slot # slots) acc =
     (if length acc \<ge> theory_needed then acc
      else if alt_teacher \<in> pa_teacher_schedule st (key_of slot)
      then potential_slots st c alt_teacher rrooms theory_needed slots acc
      else
        (case find (\<lambda>r. \<not> regular_room_schedule st (key_of slot, r)) rrooms of
           None \<Rightarrow> potential_slots st c alt_teacher rrooms theory_needed slots acc
         | Some room \<Rightarrow>
             if check_slot_available (student_matrix st) c (key_of slot)
             then potential_slots st c alt_teacher rrooms theory_needed slots
                    (acc @ [(slot, room, THEORY)])
             else potential_slots st c alt_teacher rrooms theory_needed slots acc))"

text \<open>Committing one collected slot under the new teacher.\<close>

definition place_reassigned ::
  "string \<Rightarrow> string \<Rightarrow> string \<Rightarrow> int \<Rightarrow> TimeSlot \<times> string \<times> SessionType \<Rightarrow> agent_state \<Rightarrow> agent_state" where
  "place_reassigned crs b alt_teacher students = (\<lambda>(slot, room, ty) st.
     st\<lparr>pa_entries := pa_entries st @
          [\<lparr>course_code = crs, batch_id = b, teacher_name = alt_teacher, room_id = room,
            time_slot = slot, session_type = ty, student_count = students\<rparr>],
        pa_teacher_schedule := (pa_teacher_schedule st)
          (key_of slot := insert alt_teacher (pa_teacher_schedule st (key_of slot))),
        regular_room_schedule := (regular_room_schedule st)((key_of slot, room) := True),
        student_matrix := mark_scheduled (crs, b) (key_of slot) (student_matrix st)\<rparr>)"

text \<open>
  The loop over the candidate teachers of one item: the original teacher is skipped, a
  teacher without \<open>theory_needed\<close> slots is skipped, the first other teacher gets all
  theory sessions and ends the loop.
\<close>

fun try_teachers ::
  "string \<Rightarrow> string \<Rightarrow> string \<Rightarrow> int \<Rightarrow> nat \<Rightarrow> string list \<Rightarrow> TimeSlot list \<Rightarrow> string list \<Rightarrow>
   agent_state \<Rightarrow> agent_state" where
  "try_teachers crs b orig students theory_needed rrooms slots [] st = st"
| "try_teachers crs b orig students theory_needed rrooms slots (alt_teacher # alts) st =
     (if alt_teacher = orig
      then try_teachers crs b orig students theory_needed rrooms slots alts st
      else
        (let potential = potential_slots st (crs, b) alt_teacher rrooms theory_needed slots []
         in if length potential < theory_needed
            then try_teachers crs b orig students theory_needed rrooms slots alts st
            else fold (place_reassigned crs b alt_teacher students)
                   (take theory_needed potential) st))"

text \<open>
  One item of \<open>unscheduled\<close>. \<open>courses[code]\<close> raises \<open>KeyError\<close> for a code that
  is not a key. The state holds \<open>new_entries\<close> as its entries.
\<close>

definition reassign_item ::
  "(string \<times> Course) list \<Rightarrow> string list \<Rightarrow> string list \<Rightarrow> TimeSlot list \<Rightarrow> unscheduled_item \<Rightarrow>
   agent_state \<Rightarrow> error + agent_state" where
  "reassign_item courses available_teachers rrooms slots item st =
     (case map_of courses (item_course item) of
        None \<Rightarrow> Inl KeyError
      | Some c \<Rightarrow>
          Inr (try_teachers (item_course item) (item_batch item) (original_teacher item)
                 (if batch_sizes c \<noteq> [] then batch_sizes c ! 0 else 60)
                 (theory_hours c) rrooms slots available_teachers st))"

fun reassign_items ::
  "(string \<times> Course) list \<Rightarrow> string list \<Rightarrow> string list \<Rightarrow> TimeSlot list \<Rightarrow> unscheduled_item list \<Rightarrow>
   agent_state \<Rightarrow> error + agent_state" where
  "reassign_items courses available_teachers rrooms slots [] st = Inr st"
| "reassign_items courses available_teachers rrooms slots (item # items) st =
     (case reassign_item courses available_teachers rrooms slots item st of
        Inl err \<Rightarrow> Inl err
      | Inr st' \<Rightarrow> reassign_items courses available_teachers rrooms slots items st')"

text \<open>The entries that stay: those of course-batches without a shortfall.\<close>

definition filtered_entries :: "ScheduleEntry list \<Rightarrow> unscheduled_item list \<Rightarrow> ScheduleEntry list" where
  "filtered_entries es unscheduled =
     filter (\<lambda>e. entry_cb e \<notin> set (map (\<lambda>i. (item_course i, item_batch i)) unscheduled)) es"

text \<open>
  The repair pass up to its last line: the final state, whose entries are
  \<open>new_entries\<close>. \<open>teachers\<close> is the list of the keys of the teachers dictionary;
  \<open>sorted\<close> is stable.
\<close>

definition reassign ::
  "StudentConflictMatrix \<Rightarrow> ScheduleEntry list \<Rightarrow> unscheduled_item list \<Rightarrow> (string \<times> Course) list \<Rightarrow>
   string list \<Rightarrow> SchedulingConfig \<Rightarrow> string list \<Rightarrow> error + agent_state" where
  "reassign m es unscheduled courses teachers cfg rrooms =
     (let st0 = occupancy_of m (filtered_entries es unscheduled);
          available_teachers = sort_key (teacher_hours courses) teachers
      in case generate_all_time_slots cfg of
           Inl err \<Rightarrow> Inl err
         | Inr slots \<Rightarrow> reassign_items courses available_teachers rrooms slots unscheduled st0)"

text \<open>\<open>return filtered_entries + new_entries\<close>; \<open>lab_rooms\<close> is not read by the code.\<close>

definition fix_with_teacher_reassignment ::
  "StudentConflictMatrix \<Rightarrow> ScheduleEntry list \<Rightarrow> unscheduled_item list \<Rightarrow> (string \<times> Course) list \<Rightarrow>
   string list \<Rightarrow> SchedulingConfig \<Rightarrow> string list \<Rightarrow> error + ScheduleEntry list" where
  "fix_with_teacher_reassignment m es unscheduled courses teachers cfg rrooms =
     (case reassign m es unscheduled courses teachers cfg rrooms of
        Inl err \<Rightarrow> Inl err
      | Inr st \<Rightarrow> Inr (filtered_entries es unscheduled @ pa_entries st))"

text \<open>
  \<open>PlannerAgent.generate_proposal\<close>: the entries of the proposal. The schedule of the
  conflict matrix is reset, the pools are R1 to R21 and LAB1 to LAB7, the main pass runs,
  and the repair pass runs when a course-batch is incomplete. The language model only
  supplies the strategy (\<open>morning_theory\<close> is what the loops read of it) and a
  priority answer that the code logs and drops, so step 5 leaves the entries as they are.
\<close>

definition agent_regular_rooms :: "string list" where
  "agent_regular_rooms = take 21 regular_rooms"

definition planner_agent_generate_proposal ::
  "StudentConflictMatrix \<Rightarrow> (string \<times> Course) list \<Rightarrow> string list \<Rightarrow> SchedulingConfig \<Rightarrow> bool \<Rightarrow>
   error + ScheduleEntry list" where
  "planner_agent_generate_proposal m courses teachers cfg morning_theory =
     (case schedule_optimized (reset_schedule m) courses cfg morning_theory
             agent_regular_rooms lab_rooms of
        Inl err \<Rightarrow> Inl err
      | Inr st \<Rightarrow>
          (let unscheduled = find_unscheduled (pa_entries st) courses
           in if unscheduled \<noteq> []
              then fix_with_teacher_reassignment (student_matrix st) (pa_entries st) unscheduled
                     courses teachers cfg agent_regular_rooms
              else Inr (pa_entries st)))"

definition default_config :: SchedulingConfig where
  "default_config = \<lparr>cfg_days = [Monday, Tuesday, Wednesday, Thursday, Friday],
     start_hour = 10, end_hour = 18, num_rooms = 10, room_capacity = 90\<rparr>"

section \<open>Invariants of the planner agent's main pass\<close>

lemma entry_slot_key_of: "entry_slot e = key_of (time_slot e)"
  by (simp add: entry_slot_def key_of_def)

text \<open>
  A property of the state that the two placements keep, given what the loops have
  checked before they place, holds after the whole pass.
\<close>

definition lab_step :: "string list \<Rightarrow> (agent_state \<Rightarrow> bool) \<Rightarrow> bool" where
  "lab_step lrooms P \<longleftrightarrow>
     (\<forall>crs b tchr students room slot1 slot2 st.
        P st \<longrightarrow> day slot2 = day slot1 \<longrightarrow> hour slot2 = hour slot1 + 1 \<longrightarrow>
        tchr \<notin> pa_teacher_schedule st (key_of slot1) \<longrightarrow>
        tchr \<notin> pa_teacher_schedule st (key_of slot2) \<longrightarrow>
        \<not> lab_room_schedule st (key_of slot1, room) \<longrightarrow>
        \<not> lab_room_schedule st (key_of slot2, room) \<longrightarrow>
        room \<in> set lrooms \<longrightarrow>
        P (place_lab crs b tchr students room slot2 (place_lab crs b tchr students room slot1 st)))"

definition theory_step :: "string list \<Rightarrow> (agent_state \<Rightarrow> bool) \<Rightarrow> bool" where
  "theory_step rrooms P \<longleftrightarrow>
     (\<forall>crs b tchr students room slot st.
        P st \<longrightarrow> tchr \<notin> pa_teacher_schedule st (key_of slot) \<longrightarrow>
        \<not> regular_room_schedule st (key_of slot, room) \<longrightarrow>
        room \<in> set rrooms \<longrightarrow>
        P (place_theory crs b tchr students room slot st))"

lemma find_Some_D: "find Q xs = Some x \<Longrightarrow> Q x \<and> x \<in> set xs"
  by (induction xs) (auto split: if_splits)

lemma schedule_labs_preserves:
  "lab_step lrooms P \<Longrightarrow> P st \<Longrightarrow> P (schedule_labs c b tchr students lrooms slots n st)"
proof (induction c b tchr students lrooms slots n st rule: schedule_labs.induct)
  case (1 c b tchr students lrooms lab_scheduled st)
  then show ?case by simp
next
  case (2 c b tchr students lrooms slot1 lab_scheduled st)
  then show ?case by simp
next
  case (3 c b tchr students lrooms slot1 s ss lab_scheduled st)
  note step = "3.prems"(1) and inv = "3.prems"(2)
  show ?case
  proof (cases "lab_scheduled < lab_hours c")
    case False
    with inv show ?thesis by simp
  next
    case True
    note more = this
    show ?thesis
    proof (cases "find (\<lambda>x. day x = day slot1 \<and> hour x = hour slot1 + 1) (s # ss)")
      case None
      with more "3.IH"(1) inv step show ?thesis by simp
    next
      case (Some slot2)
      note s2 = this
      from find_Some_D [OF s2] have adj: "day slot2 = day slot1" "hour slot2 = hour slot1 + 1"
        by simp_all
      show ?thesis
      proof (cases "tchr \<in> pa_teacher_schedule st (key_of slot1)
                \<or> tchr \<in> pa_teacher_schedule st (key_of slot2)")
        case True
        with more s2 "3.IH"(2) inv step show ?thesis by simp
      next
        case False
        note tfree = this
        show ?thesis
        proof (cases "\<not> check_slot_available (student_matrix st) (code c, b) (key_of slot1)
                     \<or> \<not> check_slot_available (student_matrix st) (code c, b) (key_of slot2)")
          case True
          with more s2 tfree "3.IH"(3) inv step show ?thesis by simp
        next
          case False
          note avail = this
          show ?thesis
          proof (cases "find (\<lambda>lr. \<not> lab_room_schedule st (key_of slot1, lr)
                               \<and> \<not> lab_room_schedule st (key_of slot2, lr)) lrooms")
            case None
            with more s2 tfree avail "3.IH"(4) inv step show ?thesis by simp
          next
            case (Some lab_room)
            from find_Some_D [OF Some]
            have room: "\<not> lab_room_schedule st (key_of slot1, lab_room)"
              "\<not> lab_room_schedule st (key_of slot2, lab_room)" "lab_room \<in> set lrooms"
              by simp_all
            from step inv adj tfree room
            have "P (place_lab (code c) b tchr students lab_room slot2
                      (place_lab (code c) b tchr students lab_room slot1 st))"
              unfolding lab_step_def by blast
            with more s2 tfree avail Some "3.IH"(5) step show ?thesis by simp
          qed
        qed
      qed
    qed
  qed
qed

lemma schedule_theory_preserves:
  "theory_step rrooms P \<Longrightarrow> P st \<Longrightarrow> P (schedule_theory c b tchr students rrooms slots n st)"
proof (induction c b tchr students rrooms slots n st rule: schedule_theory.induct)
  case (1 c b tchr students rrooms theory_scheduled st)
  then show ?case by simp
next
  case (2 c b tchr students rrooms slot slots theory_scheduled st)
  note step = "2.prems"(1) and inv = "2.prems"(2)
  show ?case
  proof (cases "theory_scheduled \<ge> theory_hours c")
    case True
    with inv show ?thesis by simp
  next
    case False
    note more = this
    show ?thesis
    proof (cases "tchr \<in> pa_teacher_schedule st (key_of slot)")
      case True
      with more "2.IH"(1) inv step show ?thesis by simp
    next
      case False
      note tfree = this
      show ?thesis
      proof (cases "check_slot_available (student_matrix st) (code c, b) (key_of slot)")
        case False
        with more tfree "2.IH"(2) inv step show ?thesis by simp
      next
        case True
        note avail = this
        show ?thesis
        proof (cases "find (\<lambda>r. \<not> regular_room_schedule st (key_of slot, r)) rrooms")
          case None
          with more tfree avail "2.IH"(3) inv step show ?thesis by simp
        next
          case (Some room)
          from find_Some_D [OF Some]
          have "\<not> regular_room_schedule st (key_of slot, room)" "room \<in> set rrooms"
            by simp_all
          with step inv tfree
          have "P (place_theory (code c) b tchr students room slot st)"
            unfolding theory_step_def by blast
          with more tfree avail Some "2.IH"(4) step show ?thesis by simp
        qed
      qed
    qed
  qed
qed

lemma schedule_batch_preserves:
  assumes "lab_step lrooms P" "theory_step rrooms P" "P st"
  shows "P (schedule_batch mt slots rrooms lrooms c ib st)"
proof -
  obtain i b where ib: "ib = (i, b)" by (cases ib)
  show ?thesis
    unfolding ib schedule_batch_def Let_def prod.case
    using assms(3)
    by (intro schedule_theory_preserves [OF assms(2)])
       (simp add: schedule_labs_preserves [OF assms(1)])
qed

lemma schedule_course_preserves:
  assumes "lab_step lrooms P" "theory_step rrooms P"
  shows "P st \<Longrightarrow> P (schedule_course mt slots rrooms lrooms c st)"
proof -
  have "P st \<Longrightarrow> P (fold (schedule_batch mt slots rrooms lrooms c) ibs st)" for ibs
    by (induction ibs arbitrary: st) (simp_all add: schedule_batch_preserves [OF assms])
  then show "P st \<Longrightarrow> P (schedule_course mt slots rrooms lrooms c st)"
    by (simp add: schedule_course_def)
qed

lemma schedule_optimized_preserves:
  assumes "lab_step lrooms P" "theory_step rrooms P" "P (initial_agent_state m)"
    and "schedule_optimized m courses cfg mt rrooms lrooms = Inr st"
  shows "P st"
proof -
  have fold: "P st0 \<Longrightarrow> P (fold (schedule_course mt slots rrooms lrooms) cs st0)" for cs slots st0
    by (induction cs arbitrary: st0) (simp_all add: schedule_course_preserves [OF assms(1,2)])
  from assms(4) obtain slots where
    "st = fold (schedule_course mt slots rrooms lrooms)
            (sort_key (\<lambda>c. - int (total_hours c * length (batches c))) (map snd courses))
            (initial_agent_state m)"
    by (auto simp: schedule_optimized_def Let_def split: sum.splits)
  with fold [OF assms(3)] show ?thesis by simp
qed

section \<open>The main pass books no teacher and no room twice\<close>

definition agent_occupancy_ok :: "string list \<Rightarrow> string list \<Rightarrow> agent_state \<Rightarrow> bool" where
  "agent_occupancy_ok rrooms lrooms st \<longleftrightarrow>
     (\<forall>e \<in> set (pa_entries st). teacher_name e \<in> pa_teacher_schedule st (entry_slot e)) \<and>
     (\<forall>e \<in> set (pa_entries st).
        (room_id e \<in> set lrooms \<and> lab_room_schedule st (entry_slot e, room_id e)) \<or>
        (room_id e \<in> set rrooms \<and> regular_room_schedule st (entry_slot e, room_id e))) \<and>
     distinct (map slot_teacher (pa_entries st)) \<and>
     distinct (map slot_room (pa_entries st))"

lemma place_lab_occupancy_ok:
  assumes ok: "agent_occupancy_ok rrooms lrooms st"
    and disj: "set rrooms \<inter> set lrooms = {}"
    and free: "tchr \<notin> pa_teacher_schedule st (key_of slot)"
      "\<not> lab_room_schedule st (key_of slot, room)" "room \<in> set lrooms"
  shows "agent_occupancy_ok rrooms lrooms (place_lab crs b tchr students room slot st)"
proof -
  let ?e = "\<lparr>course_code = crs, batch_id = b, teacher_name = tchr, room_id = room,
       time_slot = slot, session_type = LAB, student_count = students\<rparr>"
  let ?st = "place_lab crs b tchr students room slot st"
  have es: "pa_entries ?st = pa_entries st @ [?e]" by (simp add: place_lab_def)
  have slot: "entry_slot ?e = key_of slot" by (simp add: entry_slot_key_of)
  from ok have cover_t: "\<And>e. e \<in> set (pa_entries st) \<Longrightarrow>
      teacher_name e \<in> pa_teacher_schedule st (entry_slot e)"
    and cover_r: "\<And>e. e \<in> set (pa_entries st) \<Longrightarrow>
      (room_id e \<in> set lrooms \<and> lab_room_schedule st (entry_slot e, room_id e)) \<or>
      (room_id e \<in> set rrooms \<and> regular_room_schedule st (entry_slot e, room_id e))"
    and dt: "distinct (map slot_teacher (pa_entries st))"
    and dr: "distinct (map slot_room (pa_entries st))"
    unfolding agent_occupancy_ok_def by blast+
  have t_new: "slot_teacher ?e \<notin> slot_teacher ` set (pa_entries st)"
    using cover_t free(1) slot by (auto simp: slot_teacher_def)
  have r_new: "slot_room ?e \<notin> slot_room ` set (pa_entries st)"
  proof
    assume "slot_room ?e \<in> slot_room ` set (pa_entries st)"
    then obtain e where e: "e \<in> set (pa_entries st)" "entry_slot e = key_of slot" "room_id e = room"
      using slot by (auto simp: slot_room_def)
    from cover_r [OF e(1)] e(2,3) free(2,3) disj show False by auto
  qed
  have mono: "pa_teacher_schedule st k \<subseteq> pa_teacher_schedule ?st k" for k
    by (auto simp: place_lab_def)
  have "teacher_name ?e \<in> pa_teacher_schedule ?st (entry_slot ?e)"
    unfolding slot by (simp add: place_lab_def)
  note new_t = this
  have c1: "\<forall>e \<in> set (pa_entries ?st). teacher_name e \<in> pa_teacher_schedule ?st (entry_slot e)"
    unfolding es
  proof (intro ballI)
    fix e
    assume "e \<in> set (pa_entries st @ [?e])"
    then consider "e \<in> set (pa_entries st)" | "e = ?e" by auto
    then show "teacher_name e \<in> pa_teacher_schedule ?st (entry_slot e)"
    proof cases
      case 1
      from cover_t [OF 1] mono [of "entry_slot e"] show ?thesis by blast
    next
      case 2
      with new_t show ?thesis by simp
    qed
  qed
  have c2: "\<forall>e \<in> set (pa_entries ?st).
        (room_id e \<in> set lrooms \<and> lab_room_schedule ?st (entry_slot e, room_id e)) \<or>
        (room_id e \<in> set rrooms \<and> regular_room_schedule ?st (entry_slot e, room_id e))"
    unfolding es using cover_r slot free(3) by (auto simp: place_lab_def)
  from c1 c2 dt dr t_new r_new show ?thesis
    unfolding agent_occupancy_ok_def es by simp
qed

lemma place_theory_occupancy_ok:
  assumes ok: "agent_occupancy_ok rrooms lrooms st"
    and disj: "set rrooms \<inter> set lrooms = {}"
    and free: "tchr \<notin> pa_teacher_schedule st (key_of slot)"
      "\<not> regular_room_schedule st (key_of slot, room)" "room \<in> set rrooms"
  shows "agent_occupancy_ok rrooms lrooms (place_theory crs b tchr students room slot st)"
proof -
  let ?e = "\<lparr>course_code = crs, batch_id = b, teacher_name = tchr, room_id = room,
       time_slot = slot, session_type = THEORY, student_count = students\<rparr>"
  let ?st = "place_theory crs b tchr students room slot st"
  have es: "pa_entries ?st = pa_entries st @ [?e]" by (simp add: place_theory_def)
  have slot: "entry_slot ?e = key_of slot" by (simp add: entry_slot_key_of)
  from ok have cover_t: "\<And>e. e \<in> set (pa_entries st) \<Longrightarrow>
      teacher_name e \<in> pa_teacher_schedule st (entry_slot e)"
    and cover_r: "\<And>e. e \<in> set (pa_entries st) \<Longrightarrow>
      (room_id e \<in> set lrooms \<and> lab_room_schedule st (entry_slot e, room_id e)) \<or>
      (room_id e \<in> set rrooms \<and> regular_room_schedule st (entry_slot e, room_id e))"
    and dt: "distinct (map slot_teacher (pa_entries st))"
    and dr: "distinct (map slot_room (pa_entries st))"
    unfolding agent_occupancy_ok_def by blast+
  have t_new: "slot_teacher ?e \<notin> slot_teacher ` set (pa_entries st)"
    using cover_t free(1) slot by (auto simp: slot_teacher_def)
  have r_new: "slot_room ?e \<notin> slot_room ` set (pa_entries st)"
  proof
    assume "slot_room ?e \<in> slot_room ` set (pa_entries st)"
    then obtain e where e: "e \<in> set (pa_entries st)" "entry_slot e = key_of slot" "room_id e = room"
      using slot by (auto simp: slot_room_def)
    from cover_r [OF e(1)] e(2,3) free(2,3) disj show False by auto
  qed
  have mono: "pa_teacher_schedule st k \<subseteq> pa_teacher_schedule ?st k" for k
    by (auto simp: place_theory_def)
  have "teacher_name ?e \<in> pa_teacher_schedule ?st (entry_slot ?e)"
    unfolding slot by (simp add: place_theory_def)
  note new_t = this
  have c1: "\<forall>e \<in> set (pa_entries ?st). teacher_name e \<in> pa_teacher_schedule ?st (entry_slot e)"
    unfolding es
  proof (intro ballI)
    fix e
    assume "e \<in> set (pa_entries st @ [?e])"
    then consider "e \<in> set (pa_entries st)" | "e = ?e" by auto
    then show "teacher_name e \<in> pa_teacher_schedule ?st (entry_slot e)"
    proof cases
      case 1
      from cover_t [OF 1] mono [of "entry_slot e"] show ?thesis by blast
    next
      case 2
      with new_t show ?thesis by simp
    qed
  qed
  have c2: "\<forall>e \<in> set (pa_entries ?st).
        (room_id e \<in> set lrooms \<and> lab_room_schedule ?st (entry_slot e, room_id e)) \<or>
        (room_id e \<in> set rrooms \<and> regular_room_schedule ?st (entry_slot e, room_id e))"
    unfolding es using cover_r slot free(3) by (auto simp: place_theory_def)
  from c1 c2 dt dr t_new r_new show ?thesis
    unfolding agent_occupancy_ok_def es by simp
qed

lemma place_lab_other_slot:
  "key_of slot2 \<noteq> key_of slot1 \<Longrightarrow>
   pa_teacher_schedule (place_lab crs b tchr students room slot1 st) (key_of slot2)
     = pa_teacher_schedule st (key_of slot2)
   \<and> lab_room_schedule (place_lab crs b tchr students room slot1 st) (key_of slot2, r)
     = lab_room_schedule st (key_of slot2, r)"
  by (simp add: place_lab_def)

lemma occupancy_lab_step:
  assumes "set rrooms \<inter> set lrooms = {}"
  shows "lab_step lrooms (agent_occupancy_ok rrooms lrooms)"
  unfolding lab_step_def
proof (intro allI impI)
  fix crs b tchr students room and slot1 slot2 :: TimeSlot and st :: agent_state
  assume ok: "agent_occupancy_ok rrooms lrooms st"
    and adj: "day slot2 = day slot1" "hour slot2 = hour slot1 + 1"
    and free: "tchr \<notin> pa_teacher_schedule st (key_of slot1)"
      "tchr \<notin> pa_teacher_schedule st (key_of slot2)"
      "\<not> lab_room_schedule st (key_of slot1, room)"
      "\<not> lab_room_schedule st (key_of slot2, room)" "room \<in> set lrooms"
  from adj have ne: "key_of slot2 \<noteq> key_of slot1" by (simp add: key_of_def)
  have first: "agent_occupancy_ok rrooms lrooms (place_lab crs b tchr students room slot1 st)"
    using ok assms free(1,3,5) by (rule place_lab_occupancy_ok)
  from place_lab_other_slot [OF ne] free(2,4)
  have "tchr \<notin> pa_teacher_schedule (place_lab crs b tchr students room slot1 st) (key_of slot2)"
    "\<not> lab_room_schedule (place_lab crs b tchr students room slot1 st) (key_of slot2, room)"
    by simp_all
  with first assms
  show "agent_occupancy_ok rrooms lrooms
     (place_lab crs b tchr students room slot2 (place_lab crs b tchr students room slot1 st))"
    using free(5) by (rule place_lab_occupancy_ok)
qed

lemma occupancy_theory_step:
  assumes "set rrooms \<inter> set lrooms = {}"
  shows "theory_step rrooms (agent_occupancy_ok rrooms lrooms)"
  unfolding theory_step_def
  using place_theory_occupancy_ok [OF _ assms] by blast

lemma initial_agent_occupancy_ok: "agent_occupancy_ok rrooms lrooms (initial_agent_state m)"
  by (simp add: agent_occupancy_ok_def initial_agent_state_def)

lemma schedule_optimized_occupancy_ok:
  assumes "set rrooms \<inter> set lrooms = {}"
    and "schedule_optimized m courses cfg mt rrooms lrooms = Inr st"
  shows "agent_occupancy_ok rrooms lrooms st"
  using occupancy_lab_step [OF assms(1)] occupancy_theory_step [OF assms(1)]
    initial_agent_occupancy_ok assms(2)
  by (rule schedule_optimized_preserves)

lemma agent_pools_disjoint: "set agent_regular_rooms \<inter> set lab_rooms = {}"
  by (simp add: agent_regular_rooms_def regular_rooms_def lab_rooms_def)

section \<open>Labs of the main pass come in consecutive pairs\<close>

text \<open>
  Two lab entries of one course-batch in one room on one day, one of them an hour after
  the other.
\<close>

definition lab_partner :: "ScheduleEntry \<Rightarrow> ScheduleEntry \<Rightarrow> bool" where
  "lab_partner e e' \<longleftrightarrow>
     session_type e' = LAB \<and> entry_cb e' = entry_cb e \<and> room_id e' = room_id e \<and>
     day (time_slot e') = day (time_slot e) \<and>
     (hour (time_slot e') = hour (time_slot e) + 1 \<or> hour (time_slot e) = hour (time_slot e') + 1)"

definition labs_paired :: "ScheduleEntry list \<Rightarrow> bool" where
  "labs_paired es \<longleftrightarrow>
     (\<forall>e \<in> set es. session_type e = LAB \<longrightarrow> (\<exists>e' \<in> set es. lab_partner e e'))"

text \<open>The lab entries of a proposal that have no partner in it.\<close>

definition unpaired_labs :: "ScheduleEntry list \<Rightarrow> ScheduleEntry list" where
  "unpaired_labs es =
     filter (\<lambda>e. session_type e = LAB \<and> \<not> (\<exists>e' \<in> set es. lab_partner e e')) es"

lemma labs_paired_unpaired_labs: "labs_paired es \<longleftrightarrow> unpaired_labs es = []"
  unfolding labs_paired_def unpaired_labs_def filter_empty_conv by blast

lemma labs_paired_lab_step: "lab_step lrooms (\<lambda>st. labs_paired (pa_entries st))"
  unfolding lab_step_def
proof (intro allI impI)
  fix crs b tchr students room and slot1 slot2 :: TimeSlot and st :: agent_state
  assume ok: "labs_paired (pa_entries st)"
    and adj: "day slot2 = day slot1" "hour slot2 = hour slot1 + 1"
  let ?e1 = "\<lparr>course_code = crs, batch_id = b, teacher_name = tchr, room_id = room,
       time_slot = slot1, session_type = LAB, student_count = students\<rparr>"
  let ?e2 = "\<lparr>course_code = crs, batch_id = b, teacher_name = tchr, room_id = room,
       time_slot = slot2, session_type = LAB, student_count = students\<rparr>"
  have es: "pa_entries (place_lab crs b tchr students room slot2
      (place_lab crs b tchr students room slot1 st)) = pa_entries st @ [?e1, ?e2]"
    by (simp add: place_lab_def)
  have p12: "lab_partner ?e1 ?e2" and p21: "lab_partner ?e2 ?e1"
    using adj by (simp_all add: lab_partner_def entry_cb_def)
  show "labs_paired (pa_entries (place_lab crs b tchr students room slot2
      (place_lab crs b tchr students room slot1 st)))"
    unfolding es labs_paired_def
  proof (intro ballI impI)
    fix e
    assume e: "e \<in> set (pa_entries st @ [?e1, ?e2])" and lab: "session_type e = LAB"
    from e consider "e \<in> set (pa_entries st)" | "e = ?e1" | "e = ?e2" by auto
    then show "\<exists>e' \<in> set (pa_entries st @ [?e1, ?e2]). lab_partner e e'"
    proof cases
      case 1
      with ok lab obtain e' where "e' \<in> set (pa_entries st)" "lab_partner e e'"
        unfolding labs_paired_def by blast
      then show ?thesis by auto
    next
      case 2
      with p12 show ?thesis by auto
    next
      case 3
      with p21 show ?thesis by auto
    qed
  qed
qed

lemma labs_paired_snoc_theory:
  "labs_paired es \<Longrightarrow> session_type e = THEORY \<Longrightarrow> labs_paired (es @ [e])"
  unfolding labs_paired_def by auto

lemma labs_paired_theory_step: "theory_step rrooms (\<lambda>st. labs_paired (pa_entries st))"
  unfolding theory_step_def
  by (auto simp: place_theory_def intro!: labs_paired_snoc_theory)

lemma schedule_optimized_labs_paired:
  assumes "schedule_optimized m courses cfg mt rrooms lrooms = Inr st"
  shows "labs_paired (pa_entries st)"
proof -
  have "labs_paired (pa_entries (initial_agent_state m))"
    by (simp add: labs_paired_def initial_agent_state_def)
  with labs_paired_lab_step labs_paired_theory_step show ?thesis
    using assms by (rule schedule_optimized_preserves)
qed

section \<open>The entries that the repair pass creates\<close>

text \<open>The entry that \<open>place_reassigned\<close> appends for a collected slot.\<close>

definition reassigned_entry ::
  "string \<Rightarrow> string \<Rightarrow> string \<Rightarrow> int \<Rightarrow> TimeSlot \<times> string \<times> SessionType \<Rightarrow> ScheduleEntry" where
  "reassigned_entry crs b alt_teacher students = (\<lambda>(slot, room, ty).
     \<lparr>course_code = crs, batch_id = b, teacher_name = alt_teacher, room_id = room,
      time_slot = slot, session_type = ty, student_count = students\<rparr>)"

lemma fold_place_reassigned_entries:
  "pa_entries (fold (place_reassigned crs b alt students) ps st)
     = pa_entries st @ map (reassigned_entry crs b alt students) ps"
  by (induction ps arbitrary: st)
     (auto simp: place_reassigned_def reassigned_entry_def)

text \<open>What the scan has checked for each slot it collects.\<close>

definition usable :: "agent_state \<Rightarrow> string \<Rightarrow> string list \<Rightarrow> TimeSlot \<times> string \<times> SessionType \<Rightarrow> bool" where
  "usable st alt rrooms p \<longleftrightarrow>
     alt \<notin> pa_teacher_schedule st (key_of (fst p)) \<and> fst (snd p) \<in> set rrooms \<and>
     \<not> regular_room_schedule st (key_of (fst p), fst (snd p)) \<and> snd (snd p) = THEORY"

lemma potential_slots_usable:
  "\<forall>p \<in> set acc. usable st alt rrooms p \<Longrightarrow>
   \<forall>p \<in> set (potential_slots st c alt rrooms n slots acc). usable st alt rrooms p"
proof (induction slots arbitrary: acc)
  case Nil
  then show ?case by simp
next
  case (Cons slot slots)
  show ?case
  proof (cases "find (\<lambda>r. \<not> regular_room_schedule st (key_of slot, r)) rrooms")
    case None
    with Cons show ?thesis by simp
  next
    case (Some room)
    from find_Some_D [OF Some]
    have room: "\<not> regular_room_schedule st (key_of slot, room)" "room \<in> set rrooms" by simp_all
    show ?thesis
    proof (cases "alt \<in> pa_teacher_schedule st (key_of slot)")
      case True
      with Cons show ?thesis by simp
    next
      case False
      with room have "usable st alt rrooms (slot, room, THEORY)" by (simp add: usable_def)
      with Cons.prems have "\<forall>p \<in> set (acc @ [(slot, room, THEORY)]). usable st alt rrooms p"
        by simp
      from Cons.IH [OF this] Cons.IH [OF Cons.prems] Cons.prems Some False
      show ?thesis by simp
    qed
  qed
qed

lemma potential_slots_keys:
  "distinct (map key_of slots) \<Longrightarrow> distinct (map (\<lambda>p. key_of (fst p)) acc) \<Longrightarrow>
   (\<lambda>p. key_of (fst p)) ` set acc \<inter> key_of ` set slots = {} \<Longrightarrow>
   distinct (map (\<lambda>p. key_of (fst p)) (potential_slots st c alt rrooms n slots acc))"
proof (induction slots arbitrary: acc)
  case Nil
  then show ?case by simp
next
  case (Cons slot slots)
  from Cons.prems have d: "distinct (map key_of slots)" and new: "key_of slot \<notin> key_of ` set slots"
    by simp_all
  from Cons.prems(3) have rest: "(\<lambda>p. key_of (fst p)) ` set acc \<inter> key_of ` set slots = {}"
    and fresh: "key_of slot \<notin> (\<lambda>p. key_of (fst p)) ` set acc"
    by auto
  have skip: "distinct (map (\<lambda>p. key_of (fst p)) (potential_slots st c alt rrooms n slots acc))"
    using d Cons.prems(2) rest by (rule Cons.IH)
  have take: "distinct (map (\<lambda>p. key_of (fst p))
      (potential_slots st c alt rrooms n slots (acc @ [(slot, room, THEORY)])))" for room
  proof (rule Cons.IH [OF d])
    show "distinct (map (\<lambda>p. key_of (fst p)) (acc @ [(slot, room, THEORY)]))"
      using Cons.prems(2) fresh by auto
    show "(\<lambda>p. key_of (fst p)) ` set (acc @ [(slot, room, THEORY)]) \<inter> key_of ` set slots = {}"
      using rest new by auto
  qed
  from skip take Cons.prems(2) show ?case
    by (simp split: option.splits)
qed

text \<open>
  The entries of the state after the loop over the candidate teachers: nothing new, or
  exactly \<open>theory_needed\<close> theory entries of one teacher who is not the original one,
  each in a room of the regular pool.
\<close>

lemma try_teachers_entries:
  "pa_entries (try_teachers crs b orig students n rrooms slots alts st) = pa_entries st \<or>
   (\<exists>alt ps. alt \<noteq> orig \<and> alt \<in> set alts \<and> length ps = n \<and>
      (\<forall>p \<in> set ps. fst (snd p) \<in> set rrooms \<and> snd (snd p) = THEORY) \<and>
      pa_entries (try_teachers crs b orig students n rrooms slots alts st)
        = pa_entries st @ map (reassigned_entry crs b alt students) ps)"
proof (induction alts)
  case Nil
  show ?case by simp
next
  case (Cons alt alts)
  show ?case
  proof (cases "alt = orig")
    case True
    with Cons show ?thesis by auto
  next
    case False
    note other = this
    let ?ps = "potential_slots st (crs, b) alt rrooms n slots []"
    show ?thesis
    proof (cases "length ?ps < n")
      case True
      with other Cons show ?thesis by (auto simp: Let_def)
    next
      case False
      have "\<forall>p \<in> set ?ps. usable st alt rrooms p"
        by (rule potential_slots_usable) simp
      then have "\<forall>p \<in> set (take n ?ps). fst (snd p) \<in> set rrooms \<and> snd (snd p) = THEORY"
        by (auto simp: usable_def dest: in_set_takeD)
      moreover from False have "length (take n ?ps) = n" by simp
      moreover have "pa_entries (try_teachers crs b orig students n rrooms slots (alt # alts) st)
          = pa_entries st @ map (reassigned_entry crs b alt students) (take n ?ps)"
        using other False by (simp add: Let_def fold_place_reassigned_entries)
      ultimately show ?thesis using other by (intro disjI2 exI [of _ alt] exI [of _ "take n ?ps"]) simp
    qed
  qed
qed

definition theory_in_pool :: "string list \<Rightarrow> ScheduleEntry \<Rightarrow> bool" where
  "theory_in_pool rrooms e \<longleftrightarrow> session_type e = THEORY \<and> room_id e \<in> set rrooms"

lemma reassigned_entry_theory_in_pool:
  "fst (snd p) \<in> set rrooms \<and> snd (snd p) = THEORY \<Longrightarrow>
   theory_in_pool rrooms (reassigned_entry crs b alt students p)"
  by (cases p) (simp add: theory_in_pool_def reassigned_entry_def)

lemma try_teachers_theory_in_pool:
  assumes "\<forall>e \<in> set (pa_entries st). theory_in_pool rrooms e"
  shows "\<forall>e \<in> set (pa_entries (try_teachers crs b orig students n rrooms slots alts st)).
     theory_in_pool rrooms e"
proof -
  let ?st = "try_teachers crs b orig students n rrooms slots alts st"
  from try_teachers_entries [of crs b orig students n rrooms slots alts st]
  consider "pa_entries ?st = pa_entries st"
    | alt ps where "\<forall>p \<in> set ps. fst (snd p) \<in> set rrooms \<and> snd (snd p) = THEORY"
        "pa_entries ?st = pa_entries st @ map (reassigned_entry crs b alt students) ps"
    by blast
  then show ?thesis
  proof cases
    case 1
    with assms show ?thesis by simp
  next
    case 2
    from 2(1) have "\<forall>p \<in> set ps. theory_in_pool rrooms (reassigned_entry crs b alt students p)"
      by (blast intro: reassigned_entry_theory_in_pool)
    with assms show ?thesis unfolding 2(2) by auto
  qed
qed

lemma reassign_items_theory_in_pool:
  "reassign_items courses alts rrooms slots items st = Inr st' \<Longrightarrow>
   \<forall>e \<in> set (pa_entries st). theory_in_pool rrooms e \<Longrightarrow>
   \<forall>e \<in> set (pa_entries st'). theory_in_pool rrooms e"
proof (induction items arbitrary: st)
  case Nil
  then show ?case by simp
next
  case (Cons item items)
  from Cons.prems(1) obtain st1 where
    st1: "reassign_item courses alts rrooms slots item st = Inr st1"
    and rest: "reassign_items courses alts rrooms slots items st1 = Inr st'"
    by (auto split: sum.splits)
  from st1 Cons.prems(2) have "\<forall>e \<in> set (pa_entries st1). theory_in_pool rrooms e"
    by (auto simp: reassign_item_def split: option.splits
        intro: try_teachers_theory_in_pool [rule_format])
  with rest show ?case by (rule Cons.IH)
qed

lemma record_entry_entries: "pa_entries (record_entry e st) = pa_entries st"
  by (simp add: record_entry_def Let_def)

lemma occupancy_of_entries: "pa_entries (occupancy_of m es) = []"
proof -
  have "pa_entries (fold record_entry es st) = pa_entries st" for st
    by (induction es arbitrary: st) (simp_all add: record_entry_entries)
  then show ?thesis by (simp add: occupancy_of_def initial_agent_state_def)
qed

lemma reassign_theory_in_pool:
  assumes "reassign m es unscheduled courses teachers cfg rrooms = Inr st"
  shows "\<forall>e \<in> set (pa_entries st). theory_in_pool rrooms e"
proof -
  from assms obtain slots where
    "reassign_items courses (sort_key (teacher_hours courses) teachers) rrooms slots unscheduled
       (occupancy_of m (filtered_entries es unscheduled)) = Inr st"
    by (auto simp: reassign_def Let_def split: sum.splits)
  then show ?thesis
    by (rule reassign_items_theory_in_pool) (simp add: occupancy_of_entries)
qed

text \<open>
  Claim C9. Every entry that the teacher-reassignment pass creates is a theory entry in
  a room of the regular pool it was given; it creates no lab entry, whatever shortfall
  (theory or lab) the course-batches have.
\<close>

theorem reassignment_creates_theory_only:
  assumes "reassign m es unscheduled courses teachers cfg rrooms = Inr st"
  shows "\<forall>e \<in> set (pa_entries st). session_type e = THEORY \<and> room_id e \<in> set rrooms"
  using reassign_theory_in_pool [OF assms] by (simp add: theory_in_pool_def)

section \<open>The repair pass books no teacher and no room twice on a grid without repeated slots\<close>

text \<open>
  The invariant of the repair loop, over the entries that stay (\<open>F\<close>) and the new
  ones: the rebuilt occupancy covers their teachers and their regular rooms, and no two
  of them share a slot and a teacher, or a slot and a room.
\<close>

definition repair_ok :: "ScheduleEntry list \<Rightarrow> agent_state \<Rightarrow> bool" where
  "repair_ok F st \<longleftrightarrow>
     (\<forall>e \<in> set (F @ pa_entries st). teacher_name e \<in> pa_teacher_schedule st (entry_slot e)) \<and>
     (\<forall>e \<in> set (F @ pa_entries st). \<not> starts_with_LAB (room_id e) \<longrightarrow>
        regular_room_schedule st (entry_slot e, room_id e)) \<and>
     distinct (map slot_teacher (F @ pa_entries st)) \<and>
     distinct (map slot_room (F @ pa_entries st))"

lemma distinct_map_snoc:
  "distinct (map f xs) \<Longrightarrow> f x \<notin> f ` set xs \<Longrightarrow> distinct (map f (xs @ [x]))"
  by simp

lemma place_reassigned_repair_ok:
  assumes ok: "repair_ok F st"
    and free: "alt \<notin> pa_teacher_schedule st (key_of slot)"
      "\<not> regular_room_schedule st (key_of slot, room)" "\<not> starts_with_LAB room"
  shows "repair_ok F (place_reassigned crs b alt students (slot, room, ty) st)"
proof -
  let ?e = "\<lparr>course_code = crs, batch_id = b, teacher_name = alt, room_id = room,
       time_slot = slot, session_type = ty, student_count = students\<rparr>"
  let ?st = "place_reassigned crs b alt students (slot, room, ty) st"
  have es: "F @ pa_entries ?st = (F @ pa_entries st) @ [?e]" by (simp add: place_reassigned_def)
  have slot: "entry_slot ?e = key_of slot" by (simp add: entry_slot_key_of)
  from ok have cover_t: "\<And>e. e \<in> set (F @ pa_entries st) \<Longrightarrow>
      teacher_name e \<in> pa_teacher_schedule st (entry_slot e)"
    and cover_r: "\<And>e. e \<in> set (F @ pa_entries st) \<Longrightarrow> \<not> starts_with_LAB (room_id e) \<Longrightarrow>
      regular_room_schedule st (entry_slot e, room_id e)"
    and dt: "distinct (map slot_teacher (F @ pa_entries st))"
    and dr: "distinct (map slot_room (F @ pa_entries st))"
    unfolding repair_ok_def by blast+
  have t_new: "slot_teacher ?e \<notin> slot_teacher ` set (F @ pa_entries st)"
  proof
    assume "slot_teacher ?e \<in> slot_teacher ` set (F @ pa_entries st)"
    then obtain e where "e \<in> set (F @ pa_entries st)" "slot_teacher ?e = slot_teacher e"
      by blast
    then have e: "e \<in> set (F @ pa_entries st)" "entry_slot e = key_of slot"
        "teacher_name e = alt"
      using slot by (simp_all add: slot_teacher_def)
    from cover_t [OF e(1)] e(2,3) free(1) show False by simp
  qed
  have r_new: "slot_room ?e \<notin> slot_room ` set (F @ pa_entries st)"
  proof
    assume "slot_room ?e \<in> slot_room ` set (F @ pa_entries st)"
    then obtain e where "e \<in> set (F @ pa_entries st)" "slot_room ?e = slot_room e"
      by blast
    then have e: "e \<in> set (F @ pa_entries st)" "entry_slot e = key_of slot"
        "room_id e = room"
      using slot by (simp_all add: slot_room_def)
    from cover_r [OF e(1)] e(2,3) free(2,3) show False by simp
  qed
  have mono_t: "pa_teacher_schedule st k \<subseteq> pa_teacher_schedule ?st k" for k
    by (auto simp: place_reassigned_def)
  have mono_r: "regular_room_schedule st kr \<Longrightarrow> regular_room_schedule ?st kr" for kr
    by (simp add: place_reassigned_def)
  have new_t: "teacher_name ?e \<in> pa_teacher_schedule ?st (entry_slot ?e)"
    unfolding slot by (simp add: place_reassigned_def)
  have new_r: "regular_room_schedule ?st (entry_slot ?e, room_id ?e)"
    unfolding slot by (simp add: place_reassigned_def)
  have c1: "\<forall>e \<in> set (F @ pa_entries ?st). teacher_name e \<in> pa_teacher_schedule ?st (entry_slot e)"
    unfolding es
  proof (intro ballI)
    fix e
    assume "e \<in> set ((F @ pa_entries st) @ [?e])"
    then consider "e \<in> set (F @ pa_entries st)" | "e = ?e" by auto
    then show "teacher_name e \<in> pa_teacher_schedule ?st (entry_slot e)"
    proof cases
      case 1
      from cover_t [OF 1] mono_t [of "entry_slot e"] show ?thesis by blast
    next
      case 2
      with new_t show ?thesis by simp
    qed
  qed
  have c2: "\<forall>e \<in> set (F @ pa_entries ?st). \<not> starts_with_LAB (room_id e) \<longrightarrow>
        regular_room_schedule ?st (entry_slot e, room_id e)"
    unfolding es
  proof (intro ballI impI)
    fix e
    assume "e \<in> set ((F @ pa_entries st) @ [?e])" and nl: "\<not> starts_with_LAB (room_id e)"
    then consider "e \<in> set (F @ pa_entries st)" | "e = ?e" by auto
    then show "regular_room_schedule ?st (entry_slot e, room_id e)"
    proof cases
      case 1
      from cover_r [OF 1 nl] show ?thesis by (rule mono_r)
    next
      case 2
      with new_r show ?thesis by simp
    qed
  qed
  from dt t_new have d1: "distinct (map slot_teacher ((F @ pa_entries st) @ [?e]))"
    by (rule distinct_map_snoc)
  from dr r_new have d2: "distinct (map slot_room ((F @ pa_entries st) @ [?e]))"
    by (rule distinct_map_snoc)
  note d = d1 d2
  from c1 c2 d show ?thesis
    unfolding repair_ok_def es by blast
qed

lemma place_reassigned_other_slot:
  assumes "key_of slot' \<noteq> key_of slot"
  shows "pa_teacher_schedule (place_reassigned crs b alt students (slot, room, ty) st) (key_of slot')
      = pa_teacher_schedule st (key_of slot')"
    and "regular_room_schedule (place_reassigned crs b alt students (slot, room, ty) st) (key_of slot', r)
      = regular_room_schedule st (key_of slot', r)"
  using assms by (simp_all add: place_reassigned_def)

lemma fold_place_reassigned_repair_ok:
  "repair_ok F st \<Longrightarrow> distinct (map (\<lambda>p. key_of (fst p)) ps) \<Longrightarrow>
   \<forall>p \<in> set ps. usable st alt rrooms p \<Longrightarrow> \<forall>r \<in> set rrooms. \<not> starts_with_LAB r \<Longrightarrow>
   repair_ok F (fold (place_reassigned crs b alt students) ps st)"
proof (induction ps arbitrary: st)
  case Nil
  then show ?case by simp
next
  case (Cons p ps)
  obtain slot room ty where p: "p = (slot, room, ty)" by (cases p)
  from Cons.prems(3) p have u: "alt \<notin> pa_teacher_schedule st (key_of slot)"
    "room \<in> set rrooms" "\<not> regular_room_schedule st (key_of slot, room)"
    by (simp_all add: usable_def)
  with Cons.prems(4) have nl: "\<not> starts_with_LAB room" by blast
  let ?st = "place_reassigned crs b alt students (slot, room, ty) st"
  from Cons.prems(1) u(1,3) nl have ok: "repair_ok F ?st"
    by (rule place_reassigned_repair_ok)
  have rest: "\<forall>q \<in> set ps. usable ?st alt rrooms q"
  proof
    fix q
    assume q: "q \<in> set ps"
    from Cons.prems(2) p have "key_of slot \<notin> (\<lambda>p. key_of (fst p)) ` set ps" by simp
    with q have ne: "key_of (fst q) \<noteq> key_of slot" by force
    from q Cons.prems(3) have "usable st alt rrooms q" by simp
    then show "usable ?st alt rrooms q"
      unfolding usable_def using place_reassigned_other_slot [OF ne] by simp
  qed
  from Cons.prems(2) have "distinct (map (\<lambda>p. key_of (fst p)) ps)" by simp
  with ok have "repair_ok F (fold (place_reassigned crs b alt students) ps ?st)"
    using rest Cons.prems(4) by (rule Cons.IH)
  then show ?case by (simp add: p)
qed

lemma try_teachers_repair_ok:
  assumes "distinct (map key_of slots)" "\<forall>r \<in> set rrooms. \<not> starts_with_LAB r"
  shows "repair_ok F st \<Longrightarrow> repair_ok F (try_teachers crs b orig students n rrooms slots alts st)"
proof (induction alts)
  case Nil
  then show ?case by simp
next
  case (Cons alt alts)
  let ?ps = "potential_slots st (crs, b) alt rrooms n slots []"
  have "distinct (map (\<lambda>p. key_of (fst p)) ?ps)"
    using assms(1) by (rule potential_slots_keys) simp_all
  then have d: "distinct (map (\<lambda>p. key_of (fst p)) (take n ?ps))"
    by (simp add: take_map [symmetric] distinct_take)
  have "\<forall>p \<in> set ?ps. usable st alt rrooms p"
    by (rule potential_slots_usable) simp
  then have u: "\<forall>p \<in> set (take n ?ps). usable st alt rrooms p"
    by (auto dest: in_set_takeD)
  from Cons.prems d u assms(2)
  have "repair_ok F (fold (place_reassigned crs b alt students) (take n ?ps) st)"
    by (rule fold_place_reassigned_repair_ok)
  with Cons show ?case by (simp add: Let_def)
qed

lemma reassign_items_repair_ok:
  assumes "distinct (map key_of slots)" "\<forall>r \<in> set rrooms. \<not> starts_with_LAB r"
  shows "reassign_items courses alts rrooms slots items st = Inr st' \<Longrightarrow>
     repair_ok F st \<Longrightarrow> repair_ok F st'"
proof (induction items arbitrary: st)
  case Nil
  then show ?case by simp
next
  case (Cons item items)
  from Cons.prems(1) obtain st1 where
    st1: "reassign_item courses alts rrooms slots item st = Inr st1"
    and rest: "reassign_items courses alts rrooms slots items st1 = Inr st'"
    by (auto split: sum.splits)
  from st1 Cons.prems(2) have "repair_ok F st1"
    by (auto simp: reassign_item_def split: option.splits
        intro: try_teachers_repair_ok [OF assms])
  with rest show ?case by (rule Cons.IH)
qed

text \<open>The rebuilt occupancy covers the entries it is rebuilt from.\<close>

lemma record_entry_mono:
  "pa_teacher_schedule st k \<subseteq> pa_teacher_schedule (record_entry e st) k"
  "regular_room_schedule st kr \<Longrightarrow> regular_room_schedule (record_entry e st) kr"
  by (auto simp: record_entry_def Let_def)

lemma record_entry_covers:
  "teacher_name e \<in> pa_teacher_schedule (record_entry e st) (entry_slot e)"
  "\<not> starts_with_LAB (room_id e) \<Longrightarrow>
   regular_room_schedule (record_entry e st) (entry_slot e, room_id e)"
  by (auto simp: record_entry_def Let_def)

lemma fold_record_entry_mono:
  "pa_teacher_schedule st k \<subseteq> pa_teacher_schedule (fold record_entry es st) k"
  "regular_room_schedule st kr \<Longrightarrow> regular_room_schedule (fold record_entry es st) kr"
proof (induction es arbitrary: st)
  case Nil
  {
    case 1
    show ?case by simp
  next
    case 2
    then show ?case by simp
  }
next
  case (Cons e es)
  {
    case 1
    from record_entry_mono(1) [of st k e] Cons(1) [of "record_entry e st"]
    show ?case by auto
  next
    case 2
    then have "regular_room_schedule (record_entry e st) kr" by (rule record_entry_mono(2))
    then show ?case using Cons(2) by simp
  }
qed

lemma fold_record_entry_covers:
  "e \<in> set es \<Longrightarrow> teacher_name e \<in> pa_teacher_schedule (fold record_entry es st) (entry_slot e)"
  "e \<in> set es \<Longrightarrow> \<not> starts_with_LAB (room_id e) \<Longrightarrow>
   regular_room_schedule (fold record_entry es st) (entry_slot e, room_id e)"
proof (induction es arbitrary: st)
  case Nil
  {
    case 1
    then show ?case by simp
  next
    case 2
    then show ?case by simp
  }
next
  case (Cons x es)
  {
    case 1
    show ?case
    proof (cases "e \<in> set es")
      case True
      then show ?thesis using Cons(1) by simp
    next
      case False
      with 1 have "x = e" by simp
      with record_entry_covers(1) [of e st]
        fold_record_entry_mono(1) [of "record_entry e st" "entry_slot e" es]
      show ?thesis by auto
    qed
  next
    case 2
    show ?case
    proof (cases "e \<in> set es")
      case True
      then show ?thesis using Cons(2) 2 by simp
    next
      case False
      with 2 have "x = e" by simp
      with record_entry_covers(2) [of e st] 2(2)
        fold_record_entry_mono(2) [of "record_entry e st" "(entry_slot e, room_id e)" es]
      show ?thesis by simp
    qed
  }
qed

lemma occupancy_of_repair_ok:
  assumes "distinct (map slot_teacher F)" "distinct (map slot_room F)"
  shows "repair_ok F (occupancy_of m F)"
  unfolding repair_ok_def occupancy_of_entries [unfolded occupancy_of_def] occupancy_of_def
  using assms fold_record_entry_covers [of _ F "initial_agent_state m"]
  by (simp add: occupancy_of_entries [unfolded occupancy_of_def])

section \<open>Proposals of the planner agent\<close>

lemma day_slot_keys:
  "map key_of (concat (map (\<lambda>d. map (\<lambda>h. \<lparr>day = d, hour = h\<rparr>) hs) ds))
     = concat (map (\<lambda>d. map (\<lambda>h. (d, h)) hs) ds)"
  by (induction ds) (simp_all add: key_of_def comp_def)

lemma distinct_day_slots:
  "distinct ds \<Longrightarrow> distinct hs \<Longrightarrow> distinct (concat (map (\<lambda>d. map (\<lambda>h. (d, h)) hs) ds))"
proof (induction ds)
  case Nil
  show ?case by simp
next
  case (Cons d ds)
  have "distinct (map (\<lambda>h. (d, h)) hs)"
    using Cons.prems(2) by (simp add: distinct_map inj_on_def)
  moreover have "set (map (\<lambda>h. (d, h)) hs) \<inter> set (concat (map (\<lambda>d. map (\<lambda>h. (d, h)) hs) ds)) = {}"
    using Cons.prems(1) by auto
  moreover have "distinct (concat (map (\<lambda>d. map (\<lambda>h. (d, h)) hs) ds))"
    using Cons by simp
  ultimately show ?case by simp
qed

lemma generate_all_time_slots_distinct:
  assumes "distinct (cfg_days cfg)" "generate_all_time_slots cfg = Inr slots"
  shows "distinct (map key_of slots)"
proof -
  from assms(2) have slots: "slots = concat (map (\<lambda>d. map (\<lambda>h. \<lparr>day = d, hour = h\<rparr>)
      [start_hour cfg..end_hour cfg - 1]) (cfg_days cfg))"
    by (simp add: generate_all_time_slots_def Let_def split: if_splits)
  show ?thesis
    unfolding slots day_slot_keys using assms(1) by (rule distinct_day_slots) simp
qed

lemma agent_regular_rooms_not_lab: "\<forall>r \<in> set agent_regular_rooms. \<not> starts_with_LAB r"
  by (simp add: agent_regular_rooms_def regular_rooms_def starts_with_LAB_def)

lemma fix_no_double_booking:
  assumes main: "distinct (map slot_teacher es)" "distinct (map slot_room es)"
    and days: "distinct (cfg_days cfg)"
    and pool: "\<forall>r \<in> set rrooms. \<not> starts_with_LAB r"
    and run: "fix_with_teacher_reassignment m es unscheduled courses teachers cfg rrooms = Inr es'"
  shows "no_double_booking es'"
proof -
  let ?F = "filtered_entries es unscheduled"
  from run obtain st where st: "reassign m es unscheduled courses teachers cfg rrooms = Inr st"
    and es': "es' = ?F @ pa_entries st"
    by (auto simp: fix_with_teacher_reassignment_def split: sum.splits)
  from st obtain slots where slots: "generate_all_time_slots cfg = Inr slots"
    and items: "reassign_items courses (sort_key (teacher_hours courses) teachers) rrooms slots
        unscheduled (occupancy_of m ?F) = Inr st"
    by (auto simp: reassign_def Let_def split: sum.splits)
  from main have "distinct (map slot_teacher ?F)" "distinct (map slot_room ?F)"
    by (simp_all add: filtered_entries_def distinct_map_filter)
  then have "repair_ok ?F (occupancy_of m ?F)" by (rule occupancy_of_repair_ok)
  with generate_all_time_slots_distinct [OF days slots] pool items
  have "repair_ok ?F st" by (rule reassign_items_repair_ok)
  then show ?thesis
    unfolding es' by (simp add: repair_ok_def no_double_booking_distinct)
qed

lemma planner_agent_no_double_booking:
  assumes "distinct (cfg_days cfg)"
    and "planner_agent_generate_proposal m courses teachers cfg mt = Inr es"
  shows "no_double_booking es"
proof -
  from assms(2) obtain st where
    st: "schedule_optimized (reset_schedule m) courses cfg mt agent_regular_rooms lab_rooms = Inr st"
    by (auto simp: planner_agent_generate_proposal_def split: sum.splits)
  from schedule_optimized_occupancy_ok [OF agent_pools_disjoint st]
  have d: "distinct (map slot_teacher (pa_entries st))" "distinct (map slot_room (pa_entries st))"
    by (simp_all add: agent_occupancy_ok_def)
  show ?thesis
  proof (cases "find_unscheduled (pa_entries st) courses = []")
    case True
    with assms(2) st have "es = pa_entries st"
      by (simp add: planner_agent_generate_proposal_def)
    with d show ?thesis by (simp add: no_double_booking_distinct)
  next
    case False
    with assms(2) st have "fix_with_teacher_reassignment (student_matrix st) (pa_entries st)
        (find_unscheduled (pa_entries st) courses) courses teachers cfg agent_regular_rooms = Inr es"
      by (simp add: planner_agent_generate_proposal_def Let_def)
    with d assms(1) agent_regular_rooms_not_lab show ?thesis
      by (rule fix_no_double_booking)
  qed
qed

text \<open>
  Claim C1 (as amended). No teacher and no room is in two entries of one slot: in every
  proposal of \<open>ConflictAwarePlanner.generate_proposal\<close>, in every result of the
  planner agent's main pass \<open>_schedule_optimized\<close> on its two pools, and in every
  proposal of \<open>PlannerAgent.generate_proposal\<close> (main pass and repair pass) for a
  configuration whose list of days has no repeated day.
\<close>

theorem no_double_booking_invariant:
  "(generate_proposal iter idx courses = Inr st \<longrightarrow> no_double_booking (entries st))
   \<and> (schedule_optimized m courses cfg mt agent_regular_rooms lab_rooms = Inr ast \<longrightarrow>
        no_double_booking (pa_entries ast))
   \<and> (distinct (cfg_days cfg) \<longrightarrow>
        planner_agent_generate_proposal m courses teachers cfg mt = Inr es \<longrightarrow>
        no_double_booking es)"
proof (intro conjI impI)
  assume "generate_proposal iter idx courses = Inr st"
  then show "no_double_booking (entries st)" by (rule generate_proposal_no_double_booking)
next
  assume "schedule_optimized m courses cfg mt agent_regular_rooms lab_rooms = Inr ast"
  from schedule_optimized_occupancy_ok [OF agent_pools_disjoint this]
  show "no_double_booking (pa_entries ast)"
    by (simp add: agent_occupancy_ok_def no_double_booking_distinct)
next
  assume "distinct (cfg_days cfg)"
    and "planner_agent_generate_proposal m courses teachers cfg mt = Inr es"
  then show "no_double_booking es" by (rule planner_agent_no_double_booking)
qed

section \<open>Lab pairs in the proposals of the planner agent\<close>

lemma labs_paired_filter_cb:
  assumes "labs_paired es"
  shows "labs_paired (filter (\<lambda>e. entry_cb e \<notin> S) es)"
  unfolding labs_paired_def
proof (intro ballI impI)
  fix e
  assume e: "e \<in> set (filter (\<lambda>e. entry_cb e \<notin> S) es)" and lab: "session_type e = LAB"
  with assms obtain e' where e': "e' \<in> set es" "lab_partner e e'"
    unfolding labs_paired_def by auto
  from e'(2) have "entry_cb e' = entry_cb e" by (simp add: lab_partner_def)
  with e e' show "\<exists>e' \<in> set (filter (\<lambda>e. entry_cb e \<notin> S) es). lab_partner e e'"
    by auto
qed

lemma labs_paired_append_theory:
  assumes "labs_paired es" "\<forall>e \<in> set new. session_type e = THEORY"
  shows "labs_paired (es @ new)"
  using assms unfolding labs_paired_def by auto

lemma planner_agent_labs_paired:
  assumes "planner_agent_generate_proposal m courses teachers cfg mt = Inr es"
  shows "labs_paired es"
proof -
  from assms obtain st where
    st: "schedule_optimized (reset_schedule m) courses cfg mt agent_regular_rooms lab_rooms = Inr st"
    by (auto simp: planner_agent_generate_proposal_def split: sum.splits)
  then have paired: "labs_paired (pa_entries st)" by (rule schedule_optimized_labs_paired)
  let ?u = "find_unscheduled (pa_entries st) courses"
  show ?thesis
  proof (cases "?u = []")
    case True
    with assms st have "es = pa_entries st"
      by (simp add: planner_agent_generate_proposal_def)
    with paired show ?thesis by simp
  next
    case False
    with assms st have "fix_with_teacher_reassignment (student_matrix st) (pa_entries st) ?u
        courses teachers cfg agent_regular_rooms = Inr es"
      by (simp add: planner_agent_generate_proposal_def Let_def)
    then obtain st' where
      st': "reassign (student_matrix st) (pa_entries st) ?u courses teachers cfg agent_regular_rooms
          = Inr st'"
      and es: "es = filtered_entries (pa_entries st) ?u @ pa_entries st'"
      by (auto simp: fix_with_teacher_reassignment_def split: sum.splits)
    from reassign_theory_in_pool [OF st']
    have "\<forall>e \<in> set (pa_entries st'). session_type e = THEORY"
      by (simp add: theory_in_pool_def)
    with labs_paired_filter_cb [OF paired] show ?thesis
      unfolding es filtered_entries_def by (rule labs_paired_append_theory)
  qed
qed

text \<open>
  The planner agent keeps the rule that labs are two consecutive hours. In every result
  of its main pass and in every proposal of \<open>PlannerAgent.generate_proposal\<close>, every
  lab entry is one of a pair: there is a lab entry of the same course-batch in the same
  room on the same day, one hour later or one hour earlier.
\<close>

theorem planner_agent_lab_adjacency:
  "(schedule_optimized m courses cfg mt rrooms lrooms = Inr ast \<longrightarrow> labs_paired (pa_entries ast))
   \<and> (planner_agent_generate_proposal m courses teachers cfg mt = Inr es \<longrightarrow> labs_paired es)"
  using schedule_optimized_labs_paired planner_agent_labs_paired by blast

section \<open>Concrete runs\<close>

definition empty_matrix :: StudentConflictMatrix where
  "empty_matrix = \<lparr>conflicts = (\<lambda>_. {}), slot_schedule = (\<lambda>_. {})\<rparr>"

definition one_course :: "(string \<times> Course) list" where
  "one_course =
     [(''CO401'', \<lparr>code = ''CO401'', course_type = THEORY_4HR, total_batches = 1,
         batches = [''B1''], batch_sizes = [40], teacher_assignments = [(''B1'', ''T1'')]\<rparr>)]"

definition lab_course :: "(string \<times> Course) list" where
  "lab_course =
     [(''CO401'', \<lparr>code = ''CO401'', course_type = THEORY_3HR_LAB_2HR, total_batches = 1,
         batches = [''B1''], batch_sizes = [40], teacher_assignments = [(''B1'', ''T1'')]\<rparr>)]"

text \<open>One teacher with a four-hour theory course and a course with a lab.\<close>

definition busy_teacher_courses :: "(string \<times> Course) list" where
  "busy_teacher_courses =
     [(''CO401'', \<lparr>code = ''CO401'', course_type = THEORY_4HR, total_batches = 1,
         batches = [''B1''], batch_sizes = [40], teacher_assignments = [(''B1'', ''T1'')]\<rparr>),
      (''CO403'', \<lparr>code = ''CO403'', course_type = THEORY_3HR_LAB_2HR, total_batches = 1,
         batches = [''B1''], batch_sizes = [35], teacher_assignments = [(''B1'', ''T1'')]\<rparr>)]"

text \<open>Monday only, from 10 to 12, from 10 to 14, and Monday listed twice.\<close>

definition short_day_config :: SchedulingConfig where
  "short_day_config = \<lparr>cfg_days = [Monday], start_hour = 10, end_hour = 12,
     num_rooms = 10, room_capacity = 90\<rparr>"

definition four_hour_config :: SchedulingConfig where
  "four_hour_config = \<lparr>cfg_days = [Monday], start_hour = 10, end_hour = 14,
     num_rooms = 10, room_capacity = 90\<rparr>"

definition repeated_day_config :: SchedulingConfig where
  "repeated_day_config = \<lparr>cfg_days = [Monday, Monday], start_hour = 10, end_hour = 12,
     num_rooms = 10, room_capacity = 90\<rparr>"

lemma map_sum_Inr_D: "map_sum f g x = Inr v \<Longrightarrow> \<exists>y. x = Inr y \<and> g y = v"
  by (cases x) auto

theorem no_double_booking_invariant_witness:
  "(\<exists>st. generate_proposal (\<lambda>xs. xs) example_index two_courses = Inr st
      \<and> length (entries st) = 9 \<and> no_double_booking (entries st))
   \<and> (\<exists>ast. schedule_optimized empty_matrix lab_course default_config True
               agent_regular_rooms lab_rooms = Inr ast
      \<and> length (pa_entries ast) = 5 \<and> no_double_booking (pa_entries ast))
   \<and> distinct (cfg_days four_hour_config)
   \<and> (\<exists>es. planner_agent_generate_proposal empty_matrix lab_course [''T1'', ''T2'']
              four_hour_config True = Inr es
      \<and> length es = 3 \<and> no_double_booking es)"
proof -
  have "map_sum id (\<lambda>st. length (entries st))
      (generate_proposal (\<lambda>xs. xs) example_index two_courses) = Inr 9"
    by code_simp
  then obtain st where st: "generate_proposal (\<lambda>xs. xs) example_index two_courses = Inr st"
      "length (entries st) = 9"
    by (blast dest: map_sum_Inr_D)
  have "map_sum id (\<lambda>st. length (pa_entries st))
      (schedule_optimized empty_matrix lab_course default_config True
         agent_regular_rooms lab_rooms) = Inr 5"
    by code_simp
  then obtain ast where ast: "schedule_optimized empty_matrix lab_course default_config True
         agent_regular_rooms lab_rooms = Inr ast" "length (pa_entries ast) = 5"
    by (blast dest: map_sum_Inr_D)
  have "map_sum id length (planner_agent_generate_proposal empty_matrix lab_course
      [''T1'', ''T2''] four_hour_config True) = Inr 3"
    by code_simp
  then obtain es where es: "planner_agent_generate_proposal empty_matrix lab_course
      [''T1'', ''T2''] four_hour_config True = Inr es" "length es = 3"
    by (blast dest: map_sum_Inr_D)
  have days: "distinct (cfg_days four_hour_config)" by (simp add: four_hour_config_def)
  from no_double_booking_invariant [where iter = "\<lambda>xs. xs" and idx = example_index
      and courses = two_courses and st = st] st(1)
  have n1: "no_double_booking (entries st)" by blast
  from no_double_booking_invariant [where m = empty_matrix and courses = lab_course
      and cfg = default_config and mt = True and ast = ast] ast(1)
  have n2: "no_double_booking (pa_entries ast)" by blast
  from no_double_booking_invariant [where m = empty_matrix and courses = lab_course
      and cfg = four_hour_config and mt = True and teachers = "[''T1'', ''T2'']" and es = es]
    es(1) days
  have n3: "no_double_booking es" by blast
  note n1 n2 n3
  with st ast es days show ?thesis by blast
qed


text \<open>
  With Monday listed twice in the configuration, the main pass leaves CO401-B1 two hours
  short, and the repair pass gives teacher T2 room R1 on Monday at 10 twice.
\<close>

theorem no_double_booking_counterexample:
  "\<exists>es. planner_agent_generate_proposal empty_matrix one_course [''T1'', ''T2'']
           repeated_day_config True = Inr es
     \<and> teacher_bookings es (Monday, 10) ''T2'' = 2
     \<and> room_bookings es (Monday, 10) ''R1'' = 2
     \<and> \<not> no_double_booking es"
proof -
  have "map_sum id (\<lambda>es. (teacher_bookings es (Monday, 10) ''T2'', room_bookings es (Monday, 10) ''R1''))
      (planner_agent_generate_proposal empty_matrix one_course [''T1'', ''T2'']
         repeated_day_config True) = Inr (2, 2)"
    by code_simp
  then obtain es where es: "planner_agent_generate_proposal empty_matrix one_course
      [''T1'', ''T2''] repeated_day_config True = Inr es"
      "teacher_bookings es (Monday, 10) ''T2'' = 2" "room_bookings es (Monday, 10) ''R1'' = 2"
    by (auto dest!: map_sum_Inr_D)
  have "\<not> no_double_booking es"
  proof
    assume "no_double_booking es"
    then have "teacher_bookings es (Monday, 10) ''T2'' \<le> 1"
      unfolding no_double_booking_def by blast
    with es(2) show False by simp
  qed
  with es show ?thesis by blast
qed

theorem planner_agent_lab_adjacency_witness:
  "(\<exists>ast. schedule_optimized empty_matrix lab_course default_config True
             agent_regular_rooms lab_rooms = Inr ast
      \<and> map (\<lambda>e. (session_type e, entry_slot e, room_id e)) (pa_entries ast)
          = [(LAB, (Monday, 10), ''LAB1''), (LAB, (Monday, 11), ''LAB1''),
             (THEORY, (Monday, 12), ''R1''), (THEORY, (Monday, 13), ''R1''),
             (THEORY, (Monday, 14), ''R1'')]
      \<and> labs_paired (pa_entries ast))
   \<and> (\<exists>es. planner_agent_generate_proposal empty_matrix lab_course [''T1'', ''T2'']
              default_config True = Inr es
      \<and> length (filter (\<lambda>e. session_type e = LAB) es) = 2 \<and> labs_paired es)"
proof -
  have "map_sum id (\<lambda>st. map (\<lambda>e. (session_type e, entry_slot e, room_id e)) (pa_entries st))
      (schedule_optimized empty_matrix lab_course default_config True
         agent_regular_rooms lab_rooms)
    = Inr [(LAB, (Monday, 10), ''LAB1''), (LAB, (Monday, 11), ''LAB1''),
           (THEORY, (Monday, 12), ''R1''), (THEORY, (Monday, 13), ''R1''),
           (THEORY, (Monday, 14), ''R1'')]"
    by code_simp
  from map_sum_Inr_D [OF this] obtain ast where
    ast1: "schedule_optimized empty_matrix lab_course default_config True
         agent_regular_rooms lab_rooms = Inr ast"
    and ast2: "map (\<lambda>e. (session_type e, entry_slot e, room_id e)) (pa_entries ast)
          = [(LAB, (Monday, 10), ''LAB1''), (LAB, (Monday, 11), ''LAB1''),
             (THEORY, (Monday, 12), ''R1''), (THEORY, (Monday, 13), ''R1''),
             (THEORY, (Monday, 14), ''R1'')]"
    by (elim exE conjE)
  have "map_sum id (\<lambda>es. length (filter (\<lambda>e. session_type e = LAB) es))
      (planner_agent_generate_proposal empty_matrix lab_course [''T1'', ''T2'']
         default_config True) = Inr 2"
    by code_simp
  from map_sum_Inr_D [OF this] obtain es where
    es1: "planner_agent_generate_proposal empty_matrix lab_course
      [''T1'', ''T2''] default_config True = Inr es"
    and es2: "length (filter (\<lambda>e. session_type e = LAB) es) = 2"
    by (elim exE conjE)
  note adjacency = planner_agent_lab_adjacency [where m = empty_matrix and courses = lab_course
      and cfg = default_config and mt = True and rrooms = agent_regular_rooms
      and lrooms = lab_rooms and ast = ast and teachers = "[''T1'', ''T2'']" and es = es]
  from adjacency have ast3: "labs_paired (pa_entries ast)"
    by (rule conjunct1 [THEN mp]) (rule ast1)
  from adjacency have es3: "labs_paired es"
    by (rule conjunct2 [THEN mp]) (rule es1)
  show ?thesis
    by (rule conjI; rule exI; intro conjI) (rule ast1 ast2 ast3 es1 es2 es3)+
qed

text \<open>
  Claim C3 at a failing input. Every lab entry of a proposal should have a partner: a lab
  entry of the same course-batch in the same room on the same day at the next hour. The
  conflict-aware planner receives the session type in \<open>find_best_slot\<close> and never
  reads it: it places lab hours one at a time, like theory hours. Here teacher T1 is
  busy on Monday from 10 to 17 with the theory hours of CO401-B1 and CO403-B1, so the two
  lab hours of CO403-B1 land on Monday at 17 and on Tuesday at 10, and neither has a
  partner, an hour later or an hour earlier.
\<close>

theorem conflict_aware_planner_splits_lab_pair:
  "\<exists>st. generate_proposal (\<lambda>xs. xs) empty_index busy_teacher_courses = Inr st
     \<and> map (\<lambda>e. (entry_cb e, entry_slot e, room_id e))
           (filter (\<lambda>e. session_type e = LAB) (entries st))
         = [((''CO403'', ''B1''), (Monday, 17), ''LAB1''),
            ((''CO403'', ''B1''), (Tuesday, 10), ''LAB1'')]
     \<and> map entry_slot (unpaired_labs (entries st)) = [(Monday, 17), (Tuesday, 10)]"
proof -
  have "map_sum id (\<lambda>st. (map (\<lambda>e. (entry_cb e, entry_slot e, room_id e))
            (filter (\<lambda>e. session_type e = LAB) (entries st)),
          map entry_slot (unpaired_labs (entries st))))
      (generate_proposal (\<lambda>xs. xs) empty_index busy_teacher_courses)
    = Inr ([((''CO403'', ''B1''), (Monday, 17), ''LAB1''),
            ((''CO403'', ''B1''), (Tuesday, 10), ''LAB1'')],
           [(Monday, 17), (Tuesday, 10)])"
    by code_simp
  from map_sum_Inr_D [OF this] obtain st where
    "generate_proposal (\<lambda>xs. xs) empty_index busy_teacher_courses = Inr st"
    "(map (\<lambda>e. (entry_cb e, entry_slot e, room_id e))
         (filter (\<lambda>e. session_type e = LAB) (entries st)),
       map entry_slot (unpaired_labs (entries st)))
     = ([((''CO403'', ''B1''), (Monday, 17), ''LAB1''),
         ((''CO403'', ''B1''), (Tuesday, 10), ''LAB1'')],
        [(Monday, 17), (Tuesday, 10)])"
    by (elim exE conjE)
  then show ?thesis by (intro exI [of _ st] conjI) (simp_all only: prod.inject)
qed

theorem reassignment_creates_theory_only_witness:
  "\<exists>st0 st. schedule_optimized empty_matrix lab_course four_hour_config True
               agent_regular_rooms lab_rooms = Inr st0
     \<and> map (\<lambda>i. (item_course i, item_batch i, theory_missing i, lab_missing i))
         (find_unscheduled (pa_entries st0) lab_course) = [(''CO401'', ''B1'', 1, 0)]
     \<and> reassign (student_matrix st0) (pa_entries st0) (find_unscheduled (pa_entries st0) lab_course)
         lab_course [''T1'', ''T2''] four_hour_config agent_regular_rooms = Inr st
     \<and> map (\<lambda>e. (teacher_name e, session_type e, entry_slot e, room_id e)) (pa_entries st)
         = [(''T2'', THEORY, (Monday, 10), ''R1''), (''T2'', THEORY, (Monday, 11), ''R1''),
            (''T2'', THEORY, (Monday, 12), ''R1'')]
     \<and> list_all (\<lambda>e. session_type e = THEORY \<and> room_id e \<in> set agent_regular_rooms) (pa_entries st)"
proof -
  have "map_sum id (\<lambda>st0.
          (map (\<lambda>i. (item_course i, item_batch i, theory_missing i, lab_missing i))
             (find_unscheduled (pa_entries st0) lab_course),
           map_sum id (\<lambda>st. map (\<lambda>e. (teacher_name e, session_type e, entry_slot e, room_id e))
                                (pa_entries st))
             (reassign (student_matrix st0) (pa_entries st0)
                (find_unscheduled (pa_entries st0) lab_course)
                lab_course [''T1'', ''T2''] four_hour_config agent_regular_rooms)))
      (schedule_optimized empty_matrix lab_course four_hour_config True
         agent_regular_rooms lab_rooms)
    = Inr ([(''CO401'', ''B1'', 1, 0)],
           Inr [(''T2'', THEORY, (Monday, 10), ''R1''), (''T2'', THEORY, (Monday, 11), ''R1''),
                (''T2'', THEORY, (Monday, 12), ''R1'')])"
    by code_simp
  from map_sum_Inr_D [OF this] obtain st0 where
    run1: "schedule_optimized empty_matrix lab_course four_hour_config True
               agent_regular_rooms lab_rooms = Inr st0"
    and pair: "(map (\<lambda>i. (item_course i, item_batch i, theory_missing i, lab_missing i))
             (find_unscheduled (pa_entries st0) lab_course),
           map_sum id (\<lambda>st. map (\<lambda>e. (teacher_name e, session_type e, entry_slot e, room_id e))
                                (pa_entries st))
             (reassign (student_matrix st0) (pa_entries st0)
                (find_unscheduled (pa_entries st0) lab_course)
                lab_course [''T1'', ''T2''] four_hour_config agent_regular_rooms))
      = ([(''CO401'', ''B1'', 1, 0)],
           Inr [(''T2'', THEORY, (Monday, 10), ''R1''), (''T2'', THEORY, (Monday, 11), ''R1''),
                (''T2'', THEORY, (Monday, 12), ''R1'')])"
    by (elim exE conjE)
  from pair have run2: "map (\<lambda>i. (item_course i, item_batch i, theory_missing i, lab_missing i))
         (find_unscheduled (pa_entries st0) lab_course) = [(''CO401'', ''B1'', 1, 0)]"
    by (rule Pair_inject)
  from pair have "map_sum id (\<lambda>st. map (\<lambda>e. (teacher_name e, session_type e, entry_slot e, room_id e))
                                (pa_entries st))
             (reassign (student_matrix st0) (pa_entries st0)
                (find_unscheduled (pa_entries st0) lab_course)
                lab_course [''T1'', ''T2''] four_hour_config agent_regular_rooms)
      = Inr [(''T2'', THEORY, (Monday, 10), ''R1''), (''T2'', THEORY, (Monday, 11), ''R1''),
                (''T2'', THEORY, (Monday, 12), ''R1'')]"
    by (rule Pair_inject)
  from map_sum_Inr_D [OF this] obtain st where
    run3: "reassign (student_matrix st0) (pa_entries st0) (find_unscheduled (pa_entries st0) lab_course)
         lab_course [''T1'', ''T2''] four_hour_config agent_regular_rooms = Inr st"
    and run4: "map (\<lambda>e. (teacher_name e, session_type e, entry_slot e, room_id e)) (pa_entries st)
         = [(''T2'', THEORY, (Monday, 10), ''R1''), (''T2'', THEORY, (Monday, 11), ''R1''),
            (''T2'', THEORY, (Monday, 12), ''R1'')]"
    by (elim exE conjE)
  from reassignment_creates_theory_only [OF run3]
  have run5: "list_all (\<lambda>e. session_type e = THEORY \<and> room_id e \<in> set agent_regular_rooms)
      (pa_entries st)"
    by (simp only: list_all_iff)
  show ?thesis
    by (rule exI [of _ st0], rule exI [of _ st], intro conjI) (rule run1 run2 run3 run4 run5)+
qed

text \<open>
  Claim C2 at a failing input. One course of four theory hours, teacher T1, on a grid of
  two slots: the main pass places two sessions of CO401-B1. The repair pass removes
  them, finds no other teacher (T1 is the only one; with T2 added the grid still has
  only two slots for four hours), and returns no entry at all: the two sessions placed
  before are gone.
\<close>

theorem repair_loses_placed_sessions:
  "map_sum id (\<lambda>st. length (filter (\<lambda>e. entry_cb e = (''CO401'', ''B1'')) (pa_entries st)))
     (schedule_optimized (reset_schedule empty_matrix) one_course short_day_config True
        agent_regular_rooms lab_rooms) = Inr 2
   \<and> planner_agent_generate_proposal empty_matrix one_course [''T1''] short_day_config True
       = Inr []
   \<and> planner_agent_generate_proposal empty_matrix one_course [''T1'', ''T2''] short_day_config True
       = Inr []"
  by code_simp

text \<open>
  Claim C6 at a failing input. A course with three theory and two lab hours on a grid of
  four slots is one theory hour short after the main pass. The repair pass commits
  teacher T2 for three theory sessions and for no lab session: the committed entries
  cover three of the five required hours, and none of the two lab hours.
\<close>

theorem reassignment_commits_no_lab_hours:
  "lab_hours (snd (hd lab_course)) = 2
   \<and> map_sum id (map (\<lambda>e. (teacher_name e, session_type e, entry_slot e, room_id e)))
       (planner_agent_generate_proposal empty_matrix lab_course [''T1'', ''T2'']
          four_hour_config True)
     = Inr [(''T2'', THEORY, (Monday, 10), ''R1''), (''T2'', THEORY, (Monday, 11), ''R1''),
            (''T2'', THEORY, (Monday, 12), ''R1'')]"
  by code_simp

section \<open>Verifier (agents/verification\_agent.py)\<close>

text \<open>
  A conflict record: its type and its severity (the description and the entry list are
  not read by the score). A dictionary of lists built with \<open>append\<close> is the list
  of its items in insertion order.
\<close>

record violation =
  violation_type :: string
  severity :: string

definition group_entries :: "(ScheduleEntry \<Rightarrow> 'k) \<Rightarrow> ScheduleEntry list \<Rightarrow> ('k \<times> ScheduleEntry list) list" where
  "group_entries f es = fold (\<lambda>e d. dict_append (f e) e d) es []"

definition check_teacher_conflicts :: "ScheduleEntry list \<Rightarrow> violation list" where
  "check_teacher_conflicts es =
     concat (map (\<lambda>(slot_key, slot_entries).
       concat (map (\<lambda>(teacher, teacher_entries).
         if length teacher_entries > 1
         then [\<lparr>violation_type = ''teacher_conflict'', severity = ''hard''\<rparr>] else [])
         (group_entries teacher_name slot_entries)))
       (group_entries entry_slot es))"

definition check_room_conflicts :: "ScheduleEntry list \<Rightarrow> violation list" where
  "check_room_conflicts es =
     concat (map (\<lambda>(k, room_entries).
       if length room_entries > 1
       then [\<lparr>violation_type = ''room_conflict'', severity = ''hard''\<rparr>] else [])
       (group_entries (\<lambda>e. (entry_slot e, room_id e)) es))"

definition check_coverage :: "ScheduleEntry list \<Rightarrow> (string \<times> Course) list \<Rightarrow> violation list" where
  "check_coverage es courses =
     concat (map (\<lambda>(k, c). concat (map (\<lambda>b.
       (if int (theory_hours c) - int (scheduled_hours es (k, b) THEORY) > 0
        then [\<lparr>violation_type = ''incomplete_coverage'', severity = ''hard''\<rparr>] else []) @
       (if int (lab_hours c) - int (scheduled_hours es (k, b) LAB) > 0
        then [\<lparr>violation_type = ''incomplete_coverage'', severity = ''hard''\<rparr>] else []))
       (batches c))) courses)"

definition check_time_bounds :: "ScheduleEntry list \<Rightarrow> SchedulingConfig \<Rightarrow> violation list" where
  "check_time_bounds es cfg =
     concat (map (\<lambda>e.
       (if day (time_slot e) \<notin> set (cfg_days cfg)
        then [\<lparr>violation_type = ''invalid_day'', severity = ''hard''\<rparr>] else []) @
       (if hour (time_slot e) < start_hour cfg \<or> hour (time_slot e) \<ge> end_hour cfg
        then [\<lparr>violation_type = ''invalid_time'', severity = ''hard''\<rparr>] else []))
       es)"

text \<open>
  The soft checks: the sessions of a course-batch of a known course on fewer distinct
  days than \<open>min(total_hours, 3)\<close>, and a teacher with more than six hours on a day.
\<close>

definition check_soft_constraints :: "ScheduleEntry list \<Rightarrow> (string \<times> Course) list \<Rightarrow> violation list" where
  "check_soft_constraints es courses =
     concat (map (\<lambda>(c, cb_entries).
       (case map_of courses (fst c) of
          None \<Rightarrow> []
        | Some course \<Rightarrow>
            if card (set (map (\<lambda>e. day (time_slot e)) cb_entries)) < min (total_hours course) 3
            then [\<lparr>violation_type = ''poor_distribution'', severity = ''soft''\<rparr>] else []))
       (group_entries entry_cb es)) @
     concat (map (\<lambda>(teacher, teacher_entries).
       concat (map (\<lambda>(d, day_entries).
         if length day_entries > 6
         then [\<lparr>violation_type = ''teacher_overload'', severity = ''soft''\<rparr>] else [])
         (group_entries (\<lambda>e. day (time_slot e)) teacher_entries)))
       (group_entries teacher_name es))"

text \<open>
  The score. Python computes it in floating point; the model computes it in the reals,
  which is exact for the inputs evaluated below. \<open>round(score, 3)\<close> rounds to the
  nearest thousandth and sends a tie to the even neighbour (0.5625 to 0.562, 1.0005 to 1.0).
\<close>

definition hard_conflicts :: "ScheduleEntry list \<Rightarrow> (string \<times> Course) list \<Rightarrow> SchedulingConfig \<Rightarrow> violation list" where
  "hard_conflicts es courses cfg =
     check_teacher_conflicts es @ check_room_conflicts es @ check_coverage es courses
       @ check_time_bounds es cfg"

definition total_required :: "(string \<times> Course) list \<Rightarrow> nat" where
  "total_required courses = sum_list (map (\<lambda>(k, c). total_hours c * length (batches c)) courses)"

definition coverage_ratio :: "ScheduleEntry list \<Rightarrow> (string \<times> Course) list \<Rightarrow> real" where
  "coverage_ratio es courses =
     (if total_required courses > 0 then real (length es) / real (total_required courses) else 0)"

definition clamped_base :: "nat \<Rightarrow> nat \<Rightarrow> real" where
  "clamped_base hard_conflict_count soft_conflict_count =
     max 0 (min 1 (1 - real hard_conflict_count * (1 / 10) - real soft_conflict_count * (2 / 100)))"

definition raw_score :: "ScheduleEntry list \<Rightarrow> (string \<times> Course) list \<Rightarrow> SchedulingConfig \<Rightarrow> real" where
  "raw_score es courses cfg =
     clamped_base
       (length (filter (\<lambda>c. severity c = ''hard'') (hard_conflicts es courses cfg)))
       (length (check_soft_constraints es courses))
     * coverage_ratio es courses"

definition round_half_even :: "real \<Rightarrow> int" where
  "round_half_even x =
     (let f = \<lfloor>x\<rfloor>; d = x - of_int f
      in if d < 1 / 2 then f else if d > 1 / 2 then f + 1 else if even f then f else f + 1)"

definition round3 :: "real \<Rightarrow> real" where
  "round3 x = real_of_int (round_half_even (x * 1000)) / 1000"

text \<open>
  \<open>VerificationResult\<close> declares \<open>score: float = Field(ge=0.0, le=1.0)\<close>:
  constructing it with a score outside the interval raises \<open>ValidationError\<close>.
\<close>

record VerificationResult =
  is_valid :: bool
  score :: real
  result_conflicts :: "violation list"

definition verify :: "ScheduleEntry list \<Rightarrow> (string \<times> Course) list \<Rightarrow> SchedulingConfig \<Rightarrow> error + VerificationResult" where
  "verify es courses cfg =
     (let conflicts = hard_conflicts es courses cfg;
          soft_issues = check_soft_constraints es courses;
          hard_conflict_count = length (filter (\<lambda>c. severity c = ''hard'') conflicts);
          s = round3 (raw_score es courses cfg)
      in if 0 \<le> s \<and> s \<le> 1
         then Inr \<lparr>is_valid = (hard_conflict_count = 0 \<and> coverage_ratio es courses \<ge> 95 / 100),
                   score = s, result_conflicts = conflicts @ soft_issues\<rparr>
         else Inl ValidationError)"

text \<open>Five theory sessions of a course that requires four, one on each day at 10.\<close>

definition five_sessions :: "ScheduleEntry list" where
  "five_sessions = map (\<lambda>d. \<lparr>course_code = ''CO401'', batch_id = ''B1'', teacher_name = ''T1'',
       room_id = ''R1'', time_slot = \<lparr>day = d, hour = 10\<rparr>, session_type = THEORY,
       student_count = 40\<rparr>) [Monday, Tuesday, Wednesday, Thursday, Friday]"

section \<open>The score of the verifier\<close>

lemma clamped_base_bounds: "0 \<le> clamped_base h s \<and> clamped_base h s \<le> 1"
  by (simp add: clamped_base_def)

lemma coverage_ratio_bounds:
  "length es \<le> total_required courses \<Longrightarrow>
   0 \<le> coverage_ratio es courses \<and> coverage_ratio es courses \<le> 1"
  by (simp add: coverage_ratio_def)

lemma round_half_even_floor:
  "\<lfloor>x\<rfloor> \<le> round_half_even x \<and> round_half_even x \<le> \<lfloor>x\<rfloor> + 1"
  by (simp add: round_half_even_def Let_def)

lemma round_half_even_of_int: "round_half_even (of_int n) = n"
  by (simp add: round_half_even_def Let_def)

lemma round_half_even_bounds:
  assumes "of_int a \<le> x" "x \<le> of_int b"
  shows "a \<le> round_half_even x \<and> round_half_even x \<le> b"
proof -
  from assms(1) have "a \<le> \<lfloor>x\<rfloor>" by (simp add: le_floor_iff)
  with round_half_even_floor [of x] have lower: "a \<le> round_half_even x" by linarith
  have upper: "round_half_even x \<le> b"
  proof (cases "x = of_int b")
    case True
    then show ?thesis by (simp add: round_half_even_of_int)
  next
    case False
    with assms(2) have "x < of_int b" by simp
    then have "\<lfloor>x\<rfloor> < b" by (simp add: floor_less_iff)
    with round_half_even_floor [of x] show ?thesis by linarith
  qed
  from lower upper show ?thesis ..
qed

text \<open>Ties go to the even thousandth; a score of 1.0005 rounds to 1 and is accepted.\<close>

lemma round3_ties:
  "round3 (5625 / 10000) = 562 / 1000 \<and> round3 (5635 / 10000) = 564 / 1000
   \<and> round3 (10005 / 10000) = 1"
  by code_simp

lemma round3_bounds:
  assumes "0 \<le> x" "x \<le> 1"
  shows "0 \<le> round3 x \<and> round3 x \<le> 1"
proof -
  from assms have "of_int 0 \<le> x * 1000" "x * 1000 \<le> of_int 1000" by simp_all
  then have "0 \<le> round_half_even (x * 1000) \<and> round_half_even (x * 1000) \<le> 1000"
    by (rule round_half_even_bounds)
  then show ?thesis by (simp add: round3_def)
qed

text \<open>
  When the proposal has no more entries than the courses require, \<open>verify\<close> returns
  a result and its score is in the unit interval.
\<close>

lemma verify_score_bounds:
  assumes "length es \<le> total_required courses"
  shows "\<exists>r. verify es courses cfg = Inr r \<and> 0 \<le> score r \<and> score r \<le> 1"
proof -
  from clamped_base_bounds coverage_ratio_bounds [OF assms]
  have "0 \<le> raw_score es courses cfg \<and> raw_score es courses cfg \<le> 1"
    unfolding raw_score_def by (simp add: mult_le_one)
  then have "0 \<le> round3 (raw_score es courses cfg) \<and> round3 (raw_score es courses cfg) \<le> 1"
    by (simp add: round3_bounds)
  then show ?thesis by (simp add: verify_def Let_def)
qed

lemma verify_returned_score:
  "verify es courses cfg = Inr r \<Longrightarrow> 0 \<le> score r \<and> score r \<le> 1"
  by (auto simp: verify_def Let_def split: if_splits)

text \<open>
  Claim C4 at a failing input. The proposal has five entries and the courses require
  four: no check reports anything, the base score is 1, the coverage ratio is 5/4, and
  the score 1.25 is refused by the result's own range check, so \<open>verify\<close> ends in
  \<open>ValidationError\<close> and returns no score.
\<close>

theorem verify_score_exceeds_one:
  "length five_sessions = 5
   \<and> total_required one_course = 4
   \<and> hard_conflicts five_sessions one_course default_config = []
   \<and> check_soft_constraints five_sessions one_course = []
   \<and> raw_score five_sessions one_course default_config = 5 / 4
   \<and> verify five_sessions one_course default_config = Inl ValidationError"
  by code_simp

end
